theory Spec2Isabelle
  imports Main
begin

section \<open>Strings and values of the platform\<close>

text \<open>
  A JavaScript string is modelled as a \<open>string\<close>: the list of the bytes of its
  UTF-8 encoding. The characters the program looks for (\<open>/\<close>, \<open>:\<close>, \<open>.\<close>,
  \<open>%\<close>) are ASCII, and an ASCII byte never occurs inside the encoding of another code
  point, so splitting, prefix tests and substring tests agree with the ones on UTF-16
  code units.
\<close>

datatype js_error = URIError | TypeError | SyntaxError | SqliteError

text \<open>\<open>s.startsWith(t)\<close>\<close>

fun startsWith :: "string \<Rightarrow> string \<Rightarrow> bool" where
  "startsWith s [] = True"
| "startsWith [] (t # ts) = False"
| "startsWith (c # cs) (t # ts) = (c = t \<and> startsWith cs ts)"

text \<open>\<open>s.includes(t)\<close>: \<open>t\<close> occurs in \<open>s\<close> at some position.\<close>

fun includes_str :: "string \<Rightarrow> string \<Rightarrow> bool" where
  "includes_str [] t = (t = [])"
| "includes_str (c # cs) t = (startsWith (c # cs) t \<or> includes_str cs t)"

text \<open>\<open>s.split(sep)\<close> for a separator of one character: never empty, \<open>''''\<close> gives \<open>['''']\<close>.\<close>

fun split_from :: "char \<Rightarrow> string \<Rightarrow> string \<Rightarrow> string list" where
  "split_from sep cur [] = [cur]"
| "split_from sep cur (c # cs) =
     (if c = sep then cur # split_from sep [] cs else split_from sep (cur @ [c]) cs)"

definition split :: "char \<Rightarrow> string \<Rightarrow> string list" where
  "split sep s = split_from sep [] s"

subsection \<open>decodeURIComponent\<close>

text \<open>
  The algorithm Decode of the language standard with an empty set of preserved
  characters. A \<open>%\<close> must be followed by two hexadecimal digits; an octet below 128 is
  the character itself; an octet from 128 on starts a UTF-8 sequence whose other octets
  are escapes too, and the sequence must encode a code point. Every failure throws
  URIError. In the byte model the decoded code point is its octets.
\<close>

definition hexDigit :: "char \<Rightarrow> nat option" where
  "hexDigit c =
     (let n = (of_char c :: nat) in
      if 48 \<le> n \<and> n \<le> 57 then Some (n - 48)
      else if 65 \<le> n \<and> n \<le> 70 then Some (n - 55)
      else if 97 \<le> n \<and> n \<le> 102 then Some (n - 87)
      else None)"

text \<open>The number of octets the leading octet \<open>b\<close> (at least 128) announces.\<close>

definition leadingOnes :: "nat \<Rightarrow> nat" where
  "leadingOnes b =
     (if b < 192 then 1 else if b < 224 then 2 else if b < 240 then 3
      else if b < 248 then 4 else 5)"

text \<open>The octets are the UTF-8 encoding of one code point (no overlong form, no
  surrogate, nothing above U+10FFFF).\<close>

fun validUTF8 :: "nat list \<Rightarrow> bool" where
  "validUTF8 [b0, b1] =
     (let cp = (b0 - 192) * 64 + (b1 - 128) in 128 \<le> cp)"
| "validUTF8 [b0, b1, b2] =
     (let cp = (b0 - 224) * 4096 + (b1 - 128) * 64 + (b2 - 128)
      in 2048 \<le> cp \<and> \<not> (55296 \<le> cp \<and> cp \<le> 57343))"
| "validUTF8 [b0, b1, b2, b3] =
     (let cp = (b0 - 240) * 262144 + (b1 - 128) * 4096 + (b2 - 128) * 64 + (b3 - 128)
      in 65536 \<le> cp \<and> cp \<le> 1114111)"
| "validUTF8 _ = False"

text \<open>
  \<open>Decode R octets need s\<close>: \<open>R\<close> is the result so far, \<open>octets\<close> the octets read of
  the sequence under way and \<open>need\<close> how many of its octets are still to come.
\<close>

fun Decode :: "string \<Rightarrow> nat list \<Rightarrow> nat \<Rightarrow> string \<Rightarrow> js_error + string" where
  "Decode R octets need [] = (if need = 0 then Inr R else Inl URIError)"
| "Decode R octets need (c # cs) =
     (if c \<noteq> CHR ''%'' then
        (if need = 0 then Decode (R @ [c]) [] 0 cs else Inl URIError)
      else
        (case cs of
           a # b # rest \<Rightarrow>
             (case (hexDigit a, hexDigit b) of
                (Some h, Some l) \<Rightarrow>
                  (let B = 16 * h + l in
                   if need = 0 then
                     (if B < 128 then Decode (R @ [char_of B]) [] 0 rest
                      else if leadingOnes B = 1 \<or> 4 < leadingOnes B then Inl URIError
                      else Decode R [B] (leadingOnes B - 1) rest)
                   else if \<not> (128 \<le> B \<and> B < 192) then Inl URIError
                   else if need = 1 then
                     (if validUTF8 (octets @ [B])
                      then Decode (R @ map char_of (octets @ [B])) [] 0 rest
                      else Inl URIError)
                   else Decode R (octets @ [B]) (need - 1) rest)
              | _ \<Rightarrow> Inl URIError)
         | _ \<Rightarrow> Inl URIError))"

definition decodeURIComponent :: "string \<Rightarrow> js_error + string" where
  "decodeURIComponent s = Decode [] [] 0 s"

section \<open>The pattern router (lib/router.js)\<close>

record 'h route =
  route_method :: string
  pattern :: string
  handler :: 'h

text \<open>\<open>router.get\<close> and \<open>router.post\<close> push onto the route table.\<close>

definition router_get :: "'h route list \<Rightarrow> string \<Rightarrow> 'h \<Rightarrow> 'h route list" where
  "router_get routes p h = routes @ [\<lparr>route_method = ''GET'', pattern = p, handler = h\<rparr>]"

definition router_post :: "'h route list \<Rightarrow> string \<Rightarrow> 'h \<Rightarrow> 'h route list" where
  "router_post routes p h = routes @ [\<lparr>route_method = ''POST'', pattern = p, handler = h\<rparr>]"

text \<open>
  \<open>params\<close> is an object created by \<open>{}\<close>. Assigning a string to its property
  \<open>__proto__\<close> reaches the setter inherited from \<open>Object.prototype\<close>, which ignores a
  value that is not an object; every other name becomes an own property.
\<close>

type_synonym params = "string \<rightharpoonup> string"

definition obj_set :: "params \<Rightarrow> string \<Rightarrow> string \<Rightarrow> params" where
  "obj_set ps k v = (if k = ''__proto__'' then ps else ps(k \<mapsto> v))"

text \<open>The loop of \<open>matchPattern\<close> over the indices of the two equally long arrays.\<close>

fun matchParts :: "params \<Rightarrow> (string \<times> string) list \<Rightarrow> js_error + params option" where
  "matchParts ps [] = Inr (Some ps)"
| "matchParts ps ((pat, seg) # rest) =
     (if startsWith pat '':'' then
        (case decodeURIComponent seg of
           Inl e \<Rightarrow> Inl e
         | Inr v \<Rightarrow> matchParts (obj_set ps (drop 1 pat) v) rest)
      else if pat \<noteq> seg then Inr None
      else matchParts ps rest)"

definition matchPattern :: "string \<Rightarrow> string \<Rightarrow> js_error + params option" where
  "matchPattern pat pathname =
     (let patternParts = split CHR ''/'' pat;
          pathParts = split CHR ''/'' pathname
      in if length patternParts \<noteq> length pathParts then Inr None
         else matchParts Map.empty (zip patternParts pathParts))"

text \<open>The loop of \<open>Router.match\<close> over the routes, in registration order.\<close>

fun matchRoutes ::
  "'h route list \<Rightarrow> string \<Rightarrow> string \<Rightarrow> js_error + ('h \<times> params) option" where
  "matchRoutes [] m pathname = Inr None"
| "matchRoutes (r # rs) m pathname =
     (if route_method r \<noteq> m then matchRoutes rs m pathname
      else (case matchPattern (pattern r) pathname of
              Inl e \<Rightarrow> Inl e
            | Inr None \<Rightarrow> matchRoutes rs m pathname
            | Inr (Some ps) \<Rightarrow> Inr (Some (handler r, ps))))"

text \<open>
  \<open>Router.match\<close>. The constructor \<open>new URL(url, 'http://localhost')\<close> belongs to the
  platform: \<open>pathname_of url\<close> is the \<open>pathname\<close> of the URL it builds, or the error it
  throws.
\<close>

definition Router_match ::
  "(string \<Rightarrow> js_error + string) \<Rightarrow> 'h route list \<Rightarrow> string \<Rightarrow> string
     \<Rightarrow> js_error + ('h \<times> params) option" where
  "Router_match pathname_of routes m url =
     (case pathname_of url of
        Inl e \<Rightarrow> Inl e
      | Inr pathname \<Rightarrow> matchRoutes routes m pathname)"

text \<open>
  The pathname of a request target in origin form that the URL parser leaves as it is
  (it starts with one \<open>/\<close>, has no dot segment, backslash, blank or control character):
  the text before the first \<open>?\<close> or \<open>#\<close>.
\<close>

definition origin_pathname :: "string \<Rightarrow> js_error + string" where
  "origin_pathname url = Inr (takeWhile (\<lambda>c. c \<noteq> CHR ''?'' \<and> c \<noteq> CHR ''#'') url)"

text \<open>
  The condition of the specification on one route: the same method, as many segments in
  the pattern as in the pathname, and every pattern segment either a placeholder or
  equal to the segment of the pathname at its place.
\<close>

definition structural :: "'h route \<Rightarrow> string \<Rightarrow> string \<Rightarrow> bool" where
  "structural r m pathname =
     (route_method r = m
      \<and> length (split CHR ''/'' (pattern r)) = length (split CHR ''/'' pathname)
      \<and> list_all (\<lambda>(pat, seg). startsWith pat '':'' \<or> pat = seg)
            (zip (split CHR ''/'' (pattern r)) (split CHR ''/'' pathname)))"

section \<open>The health aggregator (routes/agent-lifecycle.js)\<close>

text \<open>A row of the protocol table, as \<open>getActiveAgents\<close> returns it.\<close>

record protocol_agent =
  pa_id :: string
  pa_name :: string
  pa_model :: string
  pa_interface :: string
  pa_status :: string
  pa_focus :: string

text \<open>A line of the process listing, as \<open>getRunningAgentProcesses\<close> returns it.\<close>

record process_agent =
  user :: string
  pid :: string
  cpu :: string
  mem :: string
  command :: string

text \<open>A session log, as \<open>getActiveAgentSessions\<close> returns it.\<close>

record session_agent =
  logFile :: string
  agentName :: string
  sl_status :: string
  sl_focus :: string
  sl_model :: string
  lastModified :: string
  sl_ageMs :: int
  isRecentlyActive :: bool

text \<open>The \<open>source\<close> of an entry: \<open>'protocol'\<close> or \<open>'session-log'\<close>.\<close>

datatype source_kind = Protocol | SessionLog

text \<open>
  A value of \<open>healthMap\<close>. A property the object may lack is an option; \<open>protocolStatus\<close>
  is always there and \<open>None\<close> is its \<open>null\<close>.
\<close>

record health =
  name :: string
  agent_id :: "string option"
  model :: string
  status :: string
  focus :: string
  source :: source_kind
  protocolStatus :: "string option"
  lastActivity :: "string option"
  sessionLog :: "string option"
  ageMs :: "int option"

text \<open>
  \<open>healthMap\<close> is a \<open>Map\<close>: its entries in insertion order. \<open>Map.set\<close> replaces the
  value of a key that is there, in place, and appends a new key.
\<close>

type_synonym health_map = "(string \<times> health) list"

fun map_set :: "string \<Rightarrow> 'v \<Rightarrow> (string \<times> 'v) list \<Rightarrow> (string \<times> 'v) list" where
  "map_set k v [] = [(k, v)]"
| "map_set k v ((k', v') # m) =
     (if k' = k then (k, v) # m else (k', v') # map_set k v m)"

definition protocol_entry :: "protocol_agent \<Rightarrow> health" where
  "protocol_entry agent =
     \<lparr>name = pa_name agent, agent_id = Some (pa_id agent), model = pa_model agent,
      status = pa_status agent, focus = pa_focus agent, source = Protocol,
      protocolStatus = Some (pa_status agent),
      lastActivity = None, sessionLog = None, ageMs = None\<rparr>"

definition seed :: "protocol_agent list \<Rightarrow> health_map" where
  "seed protocolAgents =
     foldl (\<lambda>m agent. map_set (pa_name agent) (protocol_entry agent) m) [] protocolAgents"

text \<open>The predicate of \<open>find\<close>.\<close>

definition matches :: "session_agent \<Rightarrow> health \<Rightarrow> bool" where
  "matches session a =
     (name a = agentName session \<or> includes_str (agentName session) (name a))"

text \<open>The three assignments to \<open>existing\<close>.\<close>

definition enrich :: "session_agent \<Rightarrow> health \<Rightarrow> health" where
  "enrich session existing =
     existing\<lparr>lastActivity := Some (lastModified session),
              sessionLog := Some (logFile session),
              ageMs := Some (sl_ageMs session)\<rparr>"

definition session_entry :: "session_agent \<Rightarrow> health" where
  "session_entry session =
     \<lparr>name = agentName session, agent_id = None, model = sl_model session,
      status = sl_status session, focus = sl_focus session, source = SessionLog,
      protocolStatus = None,
      lastActivity = Some (lastModified session), sessionLog = Some (logFile session),
      ageMs = Some (sl_ageMs session)\<rparr>"

text \<open>
  \<open>existing\<close> is the object \<open>find\<close> returns, the first value of the map that satisfies
  the predicate; every value of the map is an object of its own, so assigning to
  \<open>existing\<close> changes that entry and no other.
\<close>

fun update_first :: "('v \<Rightarrow> bool) \<Rightarrow> ('v \<Rightarrow> 'v) \<Rightarrow> (string \<times> 'v) list \<Rightarrow> (string \<times> 'v) list" where
  "update_first P f [] = []"
| "update_first P f ((k, v) # m) =
     (if P v then (k, f v) # m else (k, v) # update_first P f m)"

definition fuse_session :: "health_map \<Rightarrow> session_agent \<Rightarrow> health_map" where
  "fuse_session m session =
     (case find (matches session) (map snd m) of
        Some existing \<Rightarrow> update_first (matches session) (enrich session) m
      | None \<Rightarrow> map_set (agentName session) (session_entry session) m)"

definition fusion :: "protocol_agent list \<Rightarrow> session_agent list \<Rightarrow> health_map" where
  "fusion protocolAgents sessionAgents =
     foldl fuse_session (seed protocolAgents) (filter isRecentlyActive sessionAgents)"

record summary =
  total :: nat
  active :: nat
  parked :: nat
  recentlyActive :: nat

text \<open>\<open>a.ageMs && a.ageMs < 3600000\<close>: a missing \<open>ageMs\<close> and the number 0 are falsy.\<close>

definition recent :: "health \<Rightarrow> bool" where
  "recent a = (case ageMs a of None \<Rightarrow> False | Some n \<Rightarrow> n \<noteq> 0 \<and> n < 3600000)"

definition summarize :: "health_map \<Rightarrow> summary" where
  "summarize m =
     \<lparr>total = length m,
      active = length (filter (\<lambda>a. status a = ''Active'') (map snd m)),
      parked = length (filter (\<lambda>a. status a = ''Parked'') (map snd m)),
      recentlyActive = length (filter recent (map snd m))\<rparr>"

record agent_health =
  agents :: "health list"
  summary :: summary
  processes :: "process_agent list"
  timestamp :: string

text \<open>
  \<open>getAgentHealth\<close>, from the three sources it reads and the time it stamps the
  result with.
\<close>

definition getAgentHealth ::
  "protocol_agent list \<Rightarrow> process_agent list \<Rightarrow> session_agent list \<Rightarrow> string \<Rightarrow> agent_health" where
  "getAgentHealth protocolAgents processAgents sessionAgents now =
     (let healthMap = fusion protocolAgents sessionAgents
      in \<lparr>agents = map snd healthMap,
          summary = summarize healthMap,
          processes = processAgents,
          timestamp = now\<rparr>)"




subsection \<open>The same with the objects in a store\<close>

text \<open>
  The values of \<open>healthMap\<close> are objects, and \<open>existing\<close> is a reference to one of
  them. Here the objects live in a store, a reference is an index into it, the map holds
  references, and an object literal allocates. The store a call starts with holds
  whatever earlier calls have left. Every reference the map holds is an index of the
  store (lemma \<open>represents_fusion\<close>), so \<open>h ! r\<close> is the object at \<open>r\<close>.
\<close>

type_synonym store = "health list"

type_synonym ref_map = "(string \<times> nat) list"

definition alloc :: "health \<Rightarrow> store \<Rightarrow> nat \<times> store" where
  "alloc v h = (length h, h @ [v])"

definition seed_in :: "store \<Rightarrow> protocol_agent list \<Rightarrow> ref_map \<times> store" where
  "seed_in h0 protocolAgents =
     foldl (\<lambda>(m, h) agent.
              (case alloc (protocol_entry agent) h of
                 (r, h') \<Rightarrow> (map_set (pa_name agent) r m, h')))
       ([], h0) protocolAgents"

definition fuse_session_in :: "ref_map \<times> store \<Rightarrow> session_agent \<Rightarrow> ref_map \<times> store" where
  "fuse_session_in mh session =
     (case mh of
        (m, h) \<Rightarrow>
          (case find (\<lambda>r. matches session (h ! r)) (map snd m) of
             Some existing \<Rightarrow> (m, h[existing := enrich session (h ! existing)])
           | None \<Rightarrow>
               (case alloc (session_entry session) h of
                  (r, h') \<Rightarrow> (map_set (agentName session) r m, h'))))"

definition fusion_in ::
  "store \<Rightarrow> protocol_agent list \<Rightarrow> session_agent list \<Rightarrow> ref_map \<times> store" where
  "fusion_in h0 protocolAgents sessionAgents =
     foldl fuse_session_in (seed_in h0 protocolAgents) (filter isRecentlyActive sessionAgents)"

text \<open>The map with each reference replaced by the object it points to.\<close>

definition deref :: "store \<Rightarrow> ref_map \<Rightarrow> health_map" where
  "deref h m = map (\<lambda>(k, r). (k, h ! r)) m"

text \<open>\<open>getAgentHealth\<close> in a store: the result and the store it leaves.\<close>

definition getAgentHealth_in ::
  "store \<Rightarrow> protocol_agent list \<Rightarrow> process_agent list \<Rightarrow> session_agent list \<Rightarrow> string
     \<Rightarrow> agent_health \<times> store" where
  "getAgentHealth_in h0 protocolAgents processAgents sessionAgents now =
     (case fusion_in h0 protocolAgents sessionAgents of
        (healthMap, h) \<Rightarrow>
          (\<lparr>agents = map snd (deref h healthMap),
            summary = summarize (deref h healthMap),
            processes = processAgents,
            timestamp = now\<rparr>, h))"

text \<open>
  What ties a map of references in a store to a map of values: the objects are the
  values, no two entries share an object, and every reference points into the store.
\<close>

definition represents :: "ref_map \<times> store \<Rightarrow> health_map \<Rightarrow> bool" where
  "represents mh m =
     (case mh of
        (rm, h) \<Rightarrow> deref h rm = m \<and> distinct (map snd rm) \<and> list_all (\<lambda>r. r < length h) (map snd rm))"

text \<open>
  A run that started in the store \<open>h0\<close> has left the objects of \<open>h0\<close> as they were, and
  its map refers to objects created since.
\<close>

definition framed :: "store \<Rightarrow> ref_map \<times> store \<Rightarrow> bool" where
  "framed h0 mh =
     (case mh of
        (rm, h) \<Rightarrow> take (length h0) h = h0 \<and> length h0 \<le> length h
          \<and> list_all (\<lambda>r. length h0 \<le> r) (map snd rm))"

section \<open>The probe (routes/fleet.js)\<close>

text \<open>
  The \<open>data\<close> of a result: what \<open>JSON.parse(body)\<close> returned, or the text
  \<open>body.slice(0, 500)\<close>. The body is a list of code units of any type \<open>'c\<close>.
\<close>

datatype ('c, 'j) probe_data = Parsed 'j | RawText "'c list"

text \<open>
  A ProbeResult. \<open>statusCode\<close> is the property \<open>status\<close>; it, \<open>data\<close> and \<open>timeout\<close>
  are \<open>None\<close> where the object has no such property.
\<close>

record ('c, 'j) probe_result =
  ok :: bool
  latencyMs :: int
  statusCode :: "nat option"
  data :: "('c, 'j) probe_data option"
  timeout :: "bool option"

text \<open>
  What the request of \<open>http.get\<close> reports to the callbacks \<open>probe\<close> registers: the
  response with its status code (the callback of \<open>http.get\<close>), a chunk of the body
  (\<open>data\<close>), the end of the body (\<open>end\<close>), a failure of the connection (\<open>error\<close>) and
  the expiry of the socket's timeout (\<open>timeout\<close>). \<open>ResEnd\<close> and \<open>ReqError\<close> carry what
  \<open>Date.now()\<close> returns in the callback.
\<close>

datatype 'c http_event =
  Response nat | ResData "'c list" | ResEnd int | ReqError int | ReqTimeout

text \<open>
  The state of one call: the status code of \<open>res\<close> once the response callback has run,
  the variable \<open>body\<close>, and the value the promise is resolved with, if it is.
\<close>

record ('c, 'j) probe_state =
  res :: "nat option"
  body :: "'c list"
  resolved :: "('c, 'j) probe_result option"

text \<open>\<open>resolve(r)\<close>: the first call settles the promise, a later one does nothing.\<close>

definition resolve ::
  "('c, 'j) probe_result \<Rightarrow> ('c, 'j) probe_state \<Rightarrow> ('c, 'j) probe_state" where
  "resolve r st = (case resolved st of None \<Rightarrow> st\<lparr>resolved := Some r\<rparr> | Some _ \<Rightarrow> st)"

text \<open>
  One callback. \<open>JSON_parse\<close> is \<open>JSON.parse\<close> of the platform: the value, or the
  error it throws, which the \<open>catch\<close> of the \<open>end\<close> callback handles. The callbacks
  \<open>data\<close> and \<open>end\<close> are registered by the response callback, so they do nothing
  before it.
\<close>

definition on_event ::
  "('c list \<Rightarrow> js_error + 'j) \<Rightarrow> int \<Rightarrow> int \<Rightarrow> ('c, 'j) probe_state \<Rightarrow> 'c http_event
     \<Rightarrow> ('c, 'j) probe_state" where
  "on_event JSON_parse start timeout_ms st ev =
     (case ev of
        Response code \<Rightarrow> st\<lparr>res := Some code, body := []\<rparr>
      | ResData d \<Rightarrow> (case res st of None \<Rightarrow> st | Some code \<Rightarrow> st\<lparr>body := body st @ d\<rparr>)
      | ResEnd now \<Rightarrow>
          (case res st of
             None \<Rightarrow> st
           | Some code \<Rightarrow>
               (case JSON_parse (body st) of
                  Inr v \<Rightarrow>
                    resolve \<lparr>ok = True, latencyMs = now - start, statusCode = Some code,
                             data = Some (Parsed v), timeout = None\<rparr> st
                | Inl e \<Rightarrow>
                    resolve \<lparr>ok = True, latencyMs = now - start, statusCode = Some code,
                             data = Some (RawText (take 500 (body st))), timeout = None\<rparr> st))
      | ReqError now \<Rightarrow>
          resolve \<lparr>ok = False, latencyMs = now - start, statusCode = None, data = None,
                   timeout = None\<rparr> st
      | ReqTimeout \<Rightarrow>
          resolve \<lparr>ok = False, latencyMs = timeout_ms, statusCode = None, data = None,
                   timeout = Some True\<rparr> st)"

text \<open>
  \<open>probe\<close>: the promise after the request has reported \<open>events\<close>, in this order, for a
  call that read \<open>start\<close> from the clock. \<open>None\<close> is a promise still pending.
\<close>

definition probe ::
  "('c list \<Rightarrow> js_error + 'j) \<Rightarrow> int \<Rightarrow> int \<Rightarrow> 'c http_event list
     \<Rightarrow> ('c, 'j) probe_result option" where
  "probe JSON_parse start timeout_ms events =
     resolved (foldl (on_event JSON_parse start timeout_ms)
                 \<lparr>res = None, body = [], resolved = None\<rparr> events)"

text \<open>The events that settle nothing: the response and the chunks of its body.\<close>

fun quiet :: "'c http_event \<Rightarrow> bool" where
  "quiet (Response code) = True"
| "quiet (ResData d) = True"
| "quiet _ = False"

section \<open>Requests, responses and the query string\<close>

text \<open>What a handler returns: \<open>{status, body}\<close>.\<close>

record 'b response =
  http_status :: nat
  http_body :: 'b

text \<open>
  \<open>new URL(req.url, 'http://localhost').searchParams\<close> belongs to the platform. In the
  handlers \<open>searchParams_of url\<close> is the function \<open>get\<close> of the parameters of that URL
  (\<open>None\<close> is \<open>null\<close>), or the error the constructor throws.
\<close>

type_synonym search_params = "string \<Rightarrow> js_error + (string \<Rightarrow> string option)"

text \<open>\<open>x || d\<close> for a string or \<open>null\<close>: \<open>null\<close> and the empty string are falsy.\<close>

definition or_else :: "string option \<Rightarrow> string \<Rightarrow> string" where
  "or_else x d = (case x of None \<Rightarrow> d | Some s \<Rightarrow> if s = [] then d else s)"

text \<open>
  The parameters of a request target in origin form written in printable ASCII, as the
  platform's parser of \<open>application/x-www-form-urlencoded\<close> reads them: the query runs
  from the first \<open>?\<close> to the first \<open>#\<close>, its pairs are separated by \<open>&\<close>, a name ends
  at the first \<open>=\<close>, a \<open>+\<close> is a blank, \<open>%XX\<close> is the octet \<open>XX\<close> and any other
  \<open>%\<close> stands for itself; \<open>get\<close> returns the value of the first pair with the name.
\<close>

fun form_decode :: "string \<Rightarrow> string" where
  "form_decode [] = []"
| "form_decode (c # cs) =
     (if c = CHR ''+'' then CHR '' '' # form_decode cs
      else if c \<noteq> CHR ''%'' then c # form_decode cs
      else (case cs of
              a # b # rest \<Rightarrow>
                (case (hexDigit a, hexDigit b) of
                   (Some h, Some l) \<Rightarrow> char_of (16 * h + l) # form_decode rest
                 | _ \<Rightarrow> c # form_decode cs)
            | _ \<Rightarrow> c # form_decode cs))"

definition query_pairs :: "string \<Rightarrow> (string \<times> string) list" where
  "query_pairs url =
     (let target = takeWhile (\<lambda>c. c \<noteq> CHR ''#'') url;
          query = drop 1 (dropWhile (\<lambda>c. c \<noteq> CHR ''?'') target)
      in map (\<lambda>p. (form_decode (takeWhile (\<lambda>c. c \<noteq> CHR ''='') p),
                   form_decode (drop 1 (dropWhile (\<lambda>c. c \<noteq> CHR ''='') p))))
           (filter (\<lambda>p. p \<noteq> []) (split CHR ''&'' query)))"

definition query_get :: search_params where
  "query_get url = Inr (map_of (query_pairs url))"

section \<open>The vault endpoints (lib/vault.js and its routes)\<close>

text \<open>
  The file system and \<open>path.join\<close> belong to the platform: \<open>path_join\<close> joins and
  normalises two paths, \<open>existsSync\<close> tests a path, \<open>readFileSync\<close> returns the text of
  a file or the error it throws, \<open>listNotes\<close> is the function of that name in
  lib/vault.js as a whole (it reads a directory).
\<close>

record 'n vault_fs =
  VAULT_PATH :: string
  path_join :: "string \<Rightarrow> string \<Rightarrow> string"
  existsSync :: "string \<Rightarrow> bool"
  readFileSync :: "string \<Rightarrow> js_error + string"
  listNotes :: "string \<Rightarrow> js_error + 'n list"

text \<open>\<open>readNote\<close>: \<open>None\<close> is \<open>null\<close>.\<close>

definition readNote :: "'n vault_fs \<Rightarrow> string \<Rightarrow> js_error + string option" where
  "readNote fs relativePath =
     (let fullPath = path_join fs (VAULT_PATH fs) relativePath
      in if \<not> startsWith fullPath (VAULT_PATH fs) then Inr None
         else if \<not> existsSync fs fullPath then Inr None
         else (case readFileSync fs fullPath of Inl e \<Rightarrow> Inl e | Inr text \<Rightarrow> Inr (Some text)))"

datatype 'n vault_body =
  VaultError string | VaultNotes "'n list" string | VaultNote string string

text \<open>The handler of \<open>GET /api/vault/notes\<close>.\<close>

definition vault_notes ::
  "search_params \<Rightarrow> 'n vault_fs \<Rightarrow> string \<Rightarrow> js_error + 'n vault_body response" where
  "vault_notes searchParams_of fs req_url =
     (case searchParams_of req_url of
        Inl e \<Rightarrow> Inl e
      | Inr get \<Rightarrow>
          (let dir = or_else (get ''dir'') []
           in if includes_str dir ''..''
              then Inr \<lparr>http_status = 400, http_body = VaultError ''Invalid directory''\<rparr>
              else (case listNotes fs dir of
                      Inl e \<Rightarrow> Inl e
                    | Inr notes \<Rightarrow> Inr \<lparr>http_status = 200, http_body = VaultNotes notes dir\<rparr>)))"

text \<open>The handler of \<open>GET /api/vault/note\<close>.\<close>

definition vault_note ::
  "search_params \<Rightarrow> 'n vault_fs \<Rightarrow> string \<Rightarrow> js_error + 'n vault_body response" where
  "vault_note searchParams_of fs req_url =
     (case searchParams_of req_url of
        Inl e \<Rightarrow> Inl e
      | Inr get \<Rightarrow>
          (let notePath = or_else (get ''path'') []
           in if includes_str notePath ''..''
              then Inr \<lparr>http_status = 400, http_body = VaultError ''Invalid path''\<rparr>
              else (case readNote fs notePath of
                      Inl e \<Rightarrow> Inl e
                    | Inr None \<Rightarrow>
                        Inr \<lparr>http_status = 404, http_body = VaultError ''Note not found''\<rparr>
                    | Inr (Some content) \<Rightarrow>
                        Inr \<lparr>http_status = 200, http_body = VaultNote notePath content\<rparr>)))"

text \<open>A vault with no file in it, for the examples.\<close>

definition empty_vault :: "unit vault_fs" where
  "empty_vault =
     \<lparr>VAULT_PATH = ''/vault'', path_join = (\<lambda>a b. a @ ''/'' @ b), existsSync = (\<lambda>p. False),
      readFileSync = (\<lambda>p. Inl TypeError), listNotes = (\<lambda>d. Inr [])\<rparr>"

section \<open>The asset list (the route \<open>/api/atlas/assets\<close>)\<close>

text \<open>
  \<open>parseInt(s)\<close> with no radix: blanks are skipped, a sign is read, \<open>0x\<close> or \<open>0X\<close>
  selects radix 16, and the longest run of digits is the number; with no digit the
  result is \<open>NaN\<close>, here \<open>None\<close>. The blanks are those of ASCII, and the number is the
  exact integer (the platform rounds it to a double beyond 2^53).
\<close>

definition isWhiteSpace :: "char \<Rightarrow> bool" where
  "isWhiteSpace c = ((of_char c :: nat) \<in> {9, 10, 11, 12, 13, 32})"

definition isDigit :: "nat \<Rightarrow> char \<Rightarrow> bool" where
  "isDigit R c = (case hexDigit c of None \<Rightarrow> False | Some d \<Rightarrow> d < R)"

definition digitValue :: "char \<Rightarrow> nat" where
  "digitValue c = (case hexDigit c of None \<Rightarrow> 0 | Some d \<Rightarrow> d)"

definition parseInt :: "string \<Rightarrow> int option" where
  "parseInt inputString =
     (let S = dropWhile isWhiteSpace inputString;
          sign = (if startsWith S ''-'' then - 1 else 1 :: int);
          S1 = (if startsWith S ''+'' \<or> startsWith S ''-'' then drop 1 S else S);
          hex = (startsWith S1 ''0x'' \<or> startsWith S1 ''0X'');
          R = (if hex then 16 else 10);
          S2 = (if hex then drop 2 S1 else S1);
          Z = takeWhile (isDigit R) S2
      in if Z = [] then None
         else Some (sign * int (foldl (\<lambda>n c. n * R + digitValue c) 0 Z)))"

text \<open>\<open>Math.min(a, b)\<close> for a number \<open>b\<close>: \<open>NaN\<close> when \<open>a\<close> is.\<close>

definition Math_min :: "int option \<Rightarrow> int \<Rightarrow> int option" where
  "Math_min a b = (case a of None \<Rightarrow> None | Some x \<Rightarrow> Some (min x b))"

text \<open>A value bound to a \<open>?\<close> of a statement.\<close>

datatype sql_arg = SqlText string | SqlNumber "int option"

datatype ('r, 'c) atlas_body =
  AtlasError string | Assets "'r list" 'c "int option" "int option"

text \<open>
  The handler of \<open>GET /api/atlas/assets\<close>. The database belongs to lib/db and the
  platform: \<open>getDb\<close> is what \<open>getDb()\<close> returns (\<open>None\<close> is \<open>null\<close>),
  \<open>db_all db query args\<close> is \<open>db.prepare(query).all(...args)\<close> and
  \<open>db_count db query args\<close> is \<open>db.prepare(query).get(...args).count\<close>, each the value
  or the error thrown. The body is \<open>{assets, total, limit, offset}\<close>.
\<close>

definition atlas_assets ::
  "search_params \<Rightarrow> 'db option \<Rightarrow> ('db \<Rightarrow> string \<Rightarrow> sql_arg list \<Rightarrow> js_error + 'r list)
     \<Rightarrow> ('db \<Rightarrow> string \<Rightarrow> sql_arg list \<Rightarrow> js_error + 'c) \<Rightarrow> string
     \<Rightarrow> js_error + ('r, 'c) atlas_body response" where
  "atlas_assets searchParams_of getDb db_all db_count req_url =
     (case getDb of
        None \<Rightarrow>
          Inr \<lparr>http_status = 503,
               http_body = AtlasError ''MemoryAtlas database unavailable''\<rparr>
      | Some db \<Rightarrow>
          (case searchParams_of req_url of
             Inl e \<Rightarrow> Inl e
           | Inr get \<Rightarrow>
               (let limit = Math_min (parseInt (or_else (get ''limit'') ''50'')) 200;
                    offset = parseInt (or_else (get ''offset'') ''0'');
                    type = or_else (get ''type'') [];
                    query = ''SELECT * FROM asset''
                      @ (if type \<noteq> [] then '' WHERE source_type = ?'' else [])
                      @ '' ORDER BY recorded_at DESC LIMIT ? OFFSET ?'';
                    args = (if type \<noteq> [] then [SqlText type] else [])
                      @ [SqlNumber limit, SqlNumber offset];
                    countQuery = ''SELECT COUNT(*) as count FROM asset''
                      @ (if type \<noteq> [] then '' WHERE source_type = ?'' else []);
                    countArgs = (if type \<noteq> [] then [SqlText type] else [])
                in (case db_all db query args of
                      Inl e \<Rightarrow> Inl e
                    | Inr rows \<Rightarrow>
                        (case db_count db countQuery countArgs of
                           Inl e \<Rightarrow> Inl e
                         | Inr count \<Rightarrow>
                             Inr \<lparr>http_status = 200,
                                  http_body = Assets rows count limit offset\<rparr>)))))"

text \<open>
  The rows a statement ending in \<open>LIMIT ? OFFSET ?\<close> returns from the rows its
  \<open>SELECT\<close> yields, after the documentation of SQLite: a negative offset counts as 0,
  a negative limit is no bound at all, and a value that is not an integer is an error.
\<close>

definition sqlite_limit :: "int option \<Rightarrow> int option \<Rightarrow> 'r list \<Rightarrow> js_error + 'r list" where
  "sqlite_limit limit offset rows =
     (case (limit, offset) of
        (Some lim, Some off) \<Rightarrow>
          Inr (if lim < 0 then drop (nat off) rows else take (nat lim) (drop (nat off) rows))
      | _ \<Rightarrow> Inl SqliteError)"

text \<open>
  An \<open>asset\<close> table for the examples: its rows with their \<open>source_type\<close>, newest first,
  queried by the two statements of the handler.
\<close>

definition table_all :: "(string \<times> 'r) list \<Rightarrow> string \<Rightarrow> sql_arg list \<Rightarrow> js_error + 'r list" where
  "table_all db query args =
     (case args of
        [SqlNumber lim, SqlNumber off] \<Rightarrow> sqlite_limit lim off (map snd db)
      | [SqlText t, SqlNumber lim, SqlNumber off] \<Rightarrow>
          sqlite_limit lim off (map snd (filter (\<lambda>r. fst r = t) db))
      | _ \<Rightarrow> Inl SqliteError)"

definition table_count :: "(string \<times> 'r) list \<Rightarrow> string \<Rightarrow> sql_arg list \<Rightarrow> js_error + nat" where
  "table_count db query args =
     (case args of
        [] \<Rightarrow> Inr (length db)
      | [SqlText t] \<Rightarrow> Inr (length (filter (\<lambda>r. fst r = t) db))
      | _ \<Rightarrow> Inl SqliteError)"

section \<open>The fleet snapshot (routes/fleet.js)\<close>

subsection \<open>Values\<close>

text \<open>
  A value of the language as far as the handler meets one: what \<open>JSON.parse\<close> returns
  (its numbers taken as integers), \<open>undefined\<close>, and the objects and arrays the handler
  builds. An object is the list of its own properties in the order they are enumerated.
\<close>

datatype jsval =
  Undefined | Null | Bool bool | Num int | Str string | Arr "jsval list"
  | Obj "(string \<times> jsval) list"

text \<open>The truth value of a condition and of the left side of \<open>||\<close>.\<close>

fun truthy :: "jsval \<Rightarrow> bool" where
  "truthy Undefined = False"
| "truthy Null = False"
| "truthy (Bool b) = b"
| "truthy (Num n) = (n \<noteq> 0)"
| "truthy (Str s) = (s \<noteq> [])"
| "truthy (Arr xs) = True"
| "truthy (Obj kvs) = True"

text \<open>\<open>a || b\<close>\<close>

definition or_value :: "jsval \<Rightarrow> jsval \<Rightarrow> jsval" where
  "or_value a b = (if truthy a then a else b)"

text \<open>
  \<open>v.k\<close> for the property names the handler reads, none of which a string, a number or
  an array inherits: a TypeError on \<open>null\<close> and \<open>undefined\<close>, the own property of an
  object, \<open>undefined\<close> otherwise.
\<close>

definition own_property :: "(string \<times> jsval) list \<Rightarrow> string \<Rightarrow> jsval" where
  "own_property kvs k = (case map_of kvs k of None \<Rightarrow> Undefined | Some v \<Rightarrow> v)"

fun get_prop :: "jsval \<Rightarrow> string \<Rightarrow> js_error + jsval" where
  "get_prop Undefined k = Inl TypeError"
| "get_prop Null k = Inl TypeError"
| "get_prop (Obj kvs) k = Inr (own_property kvs k)"
| "get_prop v k = Inr Undefined"

text \<open>\<open>v?.k\<close>\<close>

fun opt_prop :: "jsval \<Rightarrow> string \<Rightarrow> jsval" where
  "opt_prop (Obj kvs) k = own_property kvs k"
| "opt_prop v k = Undefined"

text \<open>\<open>v?.[0]\<close>\<close>

fun opt_first :: "jsval \<Rightarrow> jsval" where
  "opt_first (Arr (x # xs)) = x"
| "opt_first (Str (c # cs)) = Str [c]"
| "opt_first (Obj kvs) = own_property kvs ''0''"
| "opt_first v = Undefined"

text \<open>\<open>xs.map(f)\<close> where \<open>f\<close> may throw: the first error ends the loop.\<close>

fun map_throw :: "('a \<Rightarrow> js_error + 'b) \<Rightarrow> 'a list \<Rightarrow> js_error + 'b list" where
  "map_throw f [] = Inr []"
| "map_throw f (x # xs) =
     (case f x of
        Inl e \<Rightarrow> Inl e
      | Inr y \<Rightarrow> (case map_throw f xs of Inl e \<Rightarrow> Inl e | Inr ys \<Rightarrow> Inr (y # ys)))"

text \<open>\<open>v.map(f)\<close>: only an array has the method; calling what is not a function is a
  TypeError.\<close>

fun array_map :: "(jsval \<Rightarrow> js_error + 'b) \<Rightarrow> jsval \<Rightarrow> js_error + 'b list" where
  "array_map f (Arr xs) = map_throw f xs"
| "array_map f v = Inl TypeError"

text \<open>\<open>Object.values(v)\<close>\<close>

fun object_values :: "jsval \<Rightarrow> js_error + jsval list" where
  "object_values Undefined = Inl TypeError"
| "object_values Null = Inl TypeError"
| "object_values (Obj kvs) = Inr (map snd kvs)"
| "object_values (Arr xs) = Inr xs"
| "object_values (Str s) = Inr (map (\<lambda>c. Str [c]) s)"
| "object_values v = Inr []"

text \<open>The property at the end of a path of keys, if every key on the way is there.\<close>

fun at_path :: "jsval \<Rightarrow> string list \<Rightarrow> jsval option" where
  "at_path v [] = Some v"
| "at_path (Obj kvs) (k # ks) =
     (case map_of kvs k of None \<Rightarrow> None | Some v \<Rightarrow> at_path v ks)"
| "at_path v (k # ks) = None"

subsection \<open>What the handler is given\<close>

text \<open>
  The handler after its \<open>await\<close>s: the four results of \<open>Promise.all\<close> and the array
  the request for \<open>/v1/models\<close> resolves to are given. So are the functions of the
  platform: \<open>execSync\<close> (the output of a command, or the error thrown), \<open>trim\<close>,
  \<open>JSON.parse\<close>, the regular expressions (\<open>match_field label s\<close> is group 1 of
  \<open>s.match(/label=(.+)/)\<close> or \<open>None\<close> for \<open>null\<close>; \<open>replace_up s\<close> is
  \<open>s.replace(/.*up/, 'up')\<close>), the arithmetic on floating-point numbers (\<open>size_GB v\<close>
  is the template with \<open>(v / 1073741824).toFixed(1)\<close>, which throws when \<open>v\<close> cannot be
  made a number; \<open>total_size\<close> is the \<open>reduce\<close> over the models with its \<open>toFixed\<close>),
  the values of \<open>os\<close> and the time stamp.
\<close>

record fleet_env =
  anvilOllama :: "(char, jsval) probe_result"
  anvilOllamaTs :: "(char, jsval) probe_result"
  litellm :: "(char, jsval) probe_result"
  localOllama :: "(char, jsval) probe_result"
  models_fetched :: "jsval list"
  execSync :: "string \<Rightarrow> nat \<Rightarrow> js_error + string"
  trim :: "string \<Rightarrow> string"
  JSON_parse :: "string \<Rightarrow> js_error + jsval"
  match_field :: "string \<Rightarrow> string \<Rightarrow> string option"
  replace_up :: "string \<Rightarrow> string"
  size_GB :: "jsval \<Rightarrow> js_error + string"
  total_size :: "jsval list \<Rightarrow> string"
  os_hostname :: string
  os_cpus :: jsval
  os_totalMemGB :: jsval
  os_freeMemGB :: jsval
  os_loadavg :: jsval
  toISOString :: string

text \<open>
  \<open>run(cmd, timeout)\<close>: the trimmed output, or \<open>null\<close> when \<open>execSync\<close> throws. The
  commands executed so far are kept in a log, the newest last.
\<close>

definition run :: "fleet_env \<Rightarrow> string list \<Rightarrow> string \<Rightarrow> nat \<Rightarrow> string list \<times> string option" where
  "run env log cmd t =
     (log @ [cmd],
      case execSync env cmd t of Inl e \<Rightarrow> None | Inr out \<Rightarrow> Some (trim env out))"

text \<open>A string or \<open>null\<close> as a condition.\<close>

definition nonempty :: "string option \<Rightarrow> bool" where
  "nonempty x = (case x of None \<Rightarrow> False | Some s \<Rightarrow> s \<noteq> [])"

definition ssh_command :: string where
  "ssh_command =
     ''ssh -o ConnectTimeout=3 -o StrictHostKeyChecking=no anvil ''
     @ [CHR 0x22]
     @ ''export PATH=/opt/homebrew/bin:/usr/local/bin:$PATH && echo HOSTNAME=$(hostname) ''
     @ ''&& echo UPTIME=$(uptime) && echo MEM=$(vm_stat | head -5) ''
     @ ''&& echo DISK=$(df -h / | tail -1)''
     @ [CHR 0x22] @ '' 2>/dev/null''"

text \<open>\<open>(info.match(/LABEL=(.+)/) || [])[1] || 'unknown'\<close>\<close>

definition field_or_unknown :: "fleet_env \<Rightarrow> string \<Rightarrow> string \<Rightarrow> string" where
  "field_or_unknown env label info = or_else (match_field env label info) ''unknown''"

text \<open>\<open>getAnvilSystem\<close>: \<open>null\<close> or the three fields.\<close>

definition getAnvilSystem :: "fleet_env \<Rightarrow> string list \<Rightarrow> string list \<times> jsval" where
  "getAnvilSystem env log =
     (case run env log ssh_command 8000 of
        (log', None) \<Rightarrow> (log', Null)
      | (log', Some info) \<Rightarrow>
          (if info = [] then (log', Null)
           else (log',
                 Obj [(''hostname'', Str (field_or_unknown env ''HOSTNAME'' info)),
                      (''uptime'', Str (replace_up env (field_or_unknown env ''UPTIME'' info))),
                      (''disk'', Str (field_or_unknown env ''DISK'' info))])))"

text \<open>\<open>getHearthSystem\<close>\<close>

definition getHearthSystem :: "fleet_env \<Rightarrow> string list \<Rightarrow> string list \<times> jsval" where
  "getHearthSystem env log =
     (case run env log ''uptime'' 5000 of
        (log1, up) \<Rightarrow>
          (case run env log1 ''df -h / | tail -1'' 5000 of
             (log2, disk) \<Rightarrow>
               (log2,
                Obj [(''hostname'', Str (os_hostname env)),
                     (''uptime'', Str (or_else (map_option (replace_up env) up) ''unknown'')),
                     (''disk'', Str (or_else disk ''unknown'')),
                     (''cpus'', os_cpus env),
                     (''totalMemGB'', os_totalMemGB env),
                     (''freeMemGB'', os_freeMemGB env),
                     (''loadAvg'', os_loadavg env)])))"

subsection \<open>The models of the two Ollama servers\<close>

text \<open>The \<open>data\<close> of a result as a value: a result without it has \<open>undefined\<close>.\<close>

definition data_of :: "(char, jsval) probe_result \<Rightarrow> jsval" where
  "data_of r =
     (case data r of None \<Rightarrow> Undefined | Some (Parsed v) \<Rightarrow> v | Some (RawText s) \<Rightarrow> Str s)"

text \<open>The callback of \<open>map\<close> for Anvil's models.\<close>

definition anvil_model :: "fleet_env \<Rightarrow> jsval \<Rightarrow> js_error + jsval" where
  "anvil_model env m =
     (case get_prop m ''name'' of
        Inl e \<Rightarrow> Inl e
      | Inr nm \<Rightarrow>
          (case (if truthy (opt_prop m ''size'')
                 then map_sum id Str (size_GB env (opt_prop m ''size''))
                 else Inr (Str ''unknown'')) of
             Inl e \<Rightarrow> Inl e
           | Inr sz \<Rightarrow>
               Inr (Obj [(''name'', nm), (''size'', sz),
                         (''family'',
                            or_value (opt_prop (opt_prop m ''details'') ''family'') (Str ''unknown'')),
                         (''parameterSize'',
                            or_value (opt_prop (opt_prop m ''details'') ''parameter_size'')
                              (Str ''unknown'')),
                         (''quantization'',
                            or_value (opt_prop (opt_prop m ''details'') ''quantization_level'')
                              (Str ''unknown''))])))"

text \<open>The callback of \<open>map\<close> for the local models.\<close>

definition local_model :: "fleet_env \<Rightarrow> jsval \<Rightarrow> js_error + jsval" where
  "local_model env m =
     (case get_prop m ''name'' of
        Inl e \<Rightarrow> Inl e
      | Inr nm \<Rightarrow>
          (case (if truthy (opt_prop m ''size'')
                 then map_sum id Str (size_GB env (opt_prop m ''size''))
                 else Inr (Str ''unknown'')) of
             Inl e \<Rightarrow> Inl e
           | Inr sz \<Rightarrow>
               Inr (Obj [(''name'', nm), (''size'', sz),
                         (''family'',
                            or_value (opt_prop (opt_prop m ''details'') ''family'')
                              (Str ''unknown''))])))"

text \<open>
  \<open>let models = []; if (r.ok && r.data?.models) models = r.data.models.map(f)\<close>
\<close>

definition parse_models ::
  "(jsval \<Rightarrow> js_error + jsval) \<Rightarrow> (char, jsval) probe_result \<Rightarrow> js_error + jsval list" where
  "parse_models f r =
     (if ok r \<and> truthy (opt_prop (data_of r) ''models'')
      then array_map f (opt_prop (data_of r) ''models'')
      else Inr [])"

subsection \<open>The devices of the mesh\<close>

text \<open>The callback of \<open>map\<close> for the peers.\<close>

definition peer_device :: "jsval \<Rightarrow> js_error + jsval" where
  "peer_device p =
     (case get_prop p ''HostName'' of
        Inl e \<Rightarrow> Inl e
      | Inr nm \<Rightarrow>
          Inr (Obj [(''name'', nm),
                    (''ip'', opt_first (opt_prop p ''TailscaleIPs'')),
                    (''online'', opt_prop p ''Online''),
                    (''os'', opt_prop p ''OS''),
                    (''lastSeen'', opt_prop p ''LastSeen'')]))"

text \<open>The body of the \<open>try\<close>: the devices, or the error the \<open>catch\<close> swallows.\<close>

definition parse_devices :: "fleet_env \<Rightarrow> string \<Rightarrow> js_error + jsval list" where
  "parse_devices env tailscaleStatus =
     (case JSON_parse env tailscaleStatus of
        Inl e \<Rightarrow> Inl e
      | Inr ts \<Rightarrow>
          (case get_prop ts ''Peer'' of
             Inl e \<Rightarrow> Inl e
           | Inr peer \<Rightarrow>
               (case object_values (or_value peer (Obj [])) of
                  Inl e \<Rightarrow> Inl e
                | Inr peers \<Rightarrow>
                    (case map_throw peer_device peers of
                       Inl e \<Rightarrow> Inl e
                     | Inr devices \<Rightarrow>
                         Inr (Obj [(''name'',
                                      or_value (opt_prop (opt_prop ts ''Self'') ''HostName'')
                                        (Str ''self'')),
                                   (''ip'',
                                      opt_first (opt_prop (opt_prop ts ''Self'') ''TailscaleIPs'')),
                                   (''online'', Bool True),
                                   (''os'', opt_prop (opt_prop ts ''Self'') ''OS'')]
                              # devices)))))"

text \<open>
  \<open>let tailscaleDevices = []; if (tailscaleStatus) { try { tailscaleDevices = ... }
  catch {} }\<close>
\<close>

definition tailscale_devices :: "fleet_env \<Rightarrow> string option \<Rightarrow> jsval list" where
  "tailscale_devices env tailscaleStatus =
     (case tailscaleStatus of
        None \<Rightarrow> []
      | Some s \<Rightarrow>
          (if s = [] then []
           else (case parse_devices env s of Inl e \<Rightarrow> [] | Inr devices \<Rightarrow> devices)))"

subsection \<open>The handler of \<open>GET /api/fleet\<close>\<close>

definition em_dash :: string where
  "em_dash = [CHR 0xE2, CHR 0x80, CHR 0x94]"

definition arrow :: string where
  "arrow = [CHR 0xE2, CHR 0x86, CHR 0x92]"

text \<open>\<open>c ? 'up' : 'down'\<close>\<close>

definition up_down :: "bool \<Rightarrow> jsval" where
  "up_down c = Str (if c then ''up'' else ''down'')"

text \<open>The entries of \<open>machines\<close> that depend on nothing.\<close>

definition nas_machine :: jsval where
  "nas_machine =
     Obj [(''name'', Str ''Synology NAS (DS223j)''),
          (''role'', Str ''Storage, backups, web hosting''),
          (''ip'', Obj [(''lan'', Str ''192.168.1.57''), (''tailscale'', Str ''100.93.227.12'')]),
          (''specs'', Obj [(''ram'', Str ''1GB''), (''storage'', Str ''16TB''),
                           (''arch'', Str ''ARM64'')]),
          (''services'', Arr [Str ''Time Machine'', Str ''Caddy (web)'',
                              Str ''cloudflared (tunnel)''])]"

definition mobile_machines :: jsval where
  "mobile_machines =
     Obj [(''ipad'',
           Obj [(''name'', Str (''iPad Pro 13'' @ [CHR 0x22] @ '' M4'')),
                (''role'', Str ''Mobile dashboard viewer, Obsidian sync, Shortcuts automation''),
                (''capabilities'',
                 Arr [Str ''View dashboard at https://hearth.local:3000 (via Tailscale)'',
                      Str ''Obsidian vault sync (iCloud)'',
                      Str (''Shortcuts '' @ arrow @ '' LiteLLM API for quick AI queries''),
                      Str ''VNC to Anvil for monitoring''])]),
          (''iphone'',
           Obj [(''name'', Str ''iPhone Pro Max 17''),
                (''role'', Str ''Notifications, quick queries, voice capture''),
                (''capabilities'',
                 Arr [Str (''Apple Voice Memos '' @ arrow @ '' MemoryAtlas pipeline''),
                      Str (''Shortcuts '' @ arrow @ '' LiteLLM API queries''),
                      Str ''Push notifications from services (planned)'',
                      Str ''Tailscale mesh access to all machines''])])]"

definition flowDescription :: jsval where
  "flowDescription =
     Arr [Str (''Claude Code (Hearth) '' @ arrow @ '' LiteLLM :4000 '' @ arrow
               @ '' Anvil Ollama :11434 (inference)''),
          Str (''Claude Code (Hearth) '' @ arrow @ '' Direct HTTP '' @ arrow
               @ '' Anvil Ollama :11434 (low latency)''),
          Str (''iPad/iPhone '' @ arrow @ '' Tailscale '' @ arrow @ '' Hearth :4000 '' @ arrow
               @ '' Anvil (via LiteLLM)''),
          Str (''iPad/iPhone '' @ arrow @ '' Tailscale '' @ arrow @ '' Hearth :3000 (dashboard)''),
          Str (''Any device '' @ arrow @ '' Tailscale '' @ arrow
               @ '' Anvil VNC (Screen Sharing)'')]"

text \<open>
  The object literal \<open>fleet\<close>, in the parts it is made of. The three calls of \<open>run\<close>
  inside it are made while it is built and are passed in here in the order they are
  made.
\<close>

definition hearth_machine ::
  "fleet_env \<Rightarrow> jsval list \<Rightarrow> jsval \<Rightarrow> string option \<Rightarrow> string option \<Rightarrow> string option
     \<Rightarrow> jsval" where
  "hearth_machine env localModels hearthSystem lsof3000 lsof3002 lsof3003 =
     Obj [(''name'', Str ''Hearth''),
          (''model'', Str ''Mac Studio M2 Max''),
          (''specs'', Obj [(''ram'', Str ''64GB''), (''cpu'', Str ''12-core''),
                           (''gpu'', Str ''30-core''), (''storage'', Str ''2TB'')]),
          (''role'', Str (''Orchestration hub '' @ em_dash @ '' services, agents, routing'')),
          (''ip'', Obj [(''lan'', Str ''192.168.1.113'')]),
          (''system'', hearthSystem),
          (''services'',
           Obj [(''dashboard'',
                 Obj [(''port'', Num 3000), (''status'', up_down (nonempty lsof3000))]),
                (''api'', Obj [(''port'', Num 3001), (''status'', Str ''up'')]),
                (''promptBrowser'',
                 Obj [(''port'', Num 3002), (''status'', up_down (nonempty lsof3002))]),
                (''contactVerify'',
                 Obj [(''port'', Num 3003), (''status'', up_down (nonempty lsof3003))]),
                (''litellm'',
                 Obj [(''port'', Num 4000), (''status'', up_down (ok (litellm env))),
                      (''latencyMs'', Num (latencyMs (litellm env)))]),
                (''ollama'',
                 Obj [(''port'', Num 11434), (''status'', up_down (ok (localOllama env)))])]),
          (''models'', Arr localModels)]"

definition anvil_machine :: "fleet_env \<Rightarrow> jsval list \<Rightarrow> jsval \<Rightarrow> jsval" where
  "anvil_machine env anvilModels anvilSystem =
     Obj [(''name'', Str ''Anvil''),
          (''model'', Str ''Mac Studio M3 Ultra''),
          (''specs'', Obj [(''ram'', Str ''96GB''), (''cpu'', Str ''28-core''),
                           (''gpu'', Str ''60-core''), (''storage'', Str ''4TB''),
                           (''bandwidth'', Str ''819 GB/s'')]),
          (''role'', Str (''Inference workhorse '' @ em_dash @ '' local LLM serving'')),
          (''ip'', Obj [(''lan'', Str ''192.168.1.105''),
                        (''tailscale'', Str ''100.116.17.120'')]),
          (''system'', anvilSystem),
          (''connectivity'',
           Obj [(''lan'',
                 Obj [(''reachable'', Bool (ok (anvilOllama env))),
                      (''latencyMs'', Num (latencyMs (anvilOllama env)))]),
                (''tailscale'',
                 Obj [(''reachable'', Bool (ok (anvilOllamaTs env))),
                      (''latencyMs'', Num (latencyMs (anvilOllamaTs env)))])]),
          (''ollama'',
           Obj [(''status'', up_down (ok (anvilOllama env))),
                (''models'', Arr anvilModels),
                (''totalSizeGB'', Str (total_size env anvilModels))])]"

definition routing_object :: "fleet_env \<Rightarrow> jsval list \<Rightarrow> jsval" where
  "routing_object env litellmModels =
     Obj [(''litellm'',
           Obj [(''status'', up_down (ok (litellm env))),
                (''port'', Num 4000),
                (''models'', Arr litellmModels),
                (''description'',
                 Str (''Universal AI gateway '' @ em_dash
                      @ '' routes to local, Anvil, and cloud models''))]),
          (''flowDescription'', flowDescription)]"

definition fleet_object ::
  "fleet_env \<Rightarrow> jsval list \<Rightarrow> jsval list \<Rightarrow> jsval \<Rightarrow> jsval \<Rightarrow> jsval list \<Rightarrow> jsval list
     \<Rightarrow> string option \<Rightarrow> string option \<Rightarrow> string option \<Rightarrow> jsval" where
  "fleet_object env anvilModels localModels anvilSystem hearthSystem litellmModels
       tailscaleDevices lsof3000 lsof3002 lsof3003 =
     Obj [(''timestamp'', Str (toISOString env)),
          (''machines'',
           Obj [(''hearth'',
                 hearth_machine env localModels hearthSystem lsof3000 lsof3002 lsof3003),
                (''anvil'', anvil_machine env anvilModels anvilSystem),
                (''nas'', nas_machine),
                (''mobile'', mobile_machines)]),
          (''routing'', routing_object env litellmModels),
          (''tailscale'',
           Obj [(''devices'', Arr tailscaleDevices),
                (''meshSize'', Num (int (length tailscaleDevices)))])]"

text \<open>
  The handler: the commands it ran, and the response or the error it throws. The
  remote inspection is the first command, run when the probe of Anvil on the LAN
  succeeded.
\<close>

definition fleet_handler :: "fleet_env \<Rightarrow> string list \<times> (js_error + jsval response)" where
  "fleet_handler env =
     (case parse_models (anvil_model env) (anvilOllama env) of
        Inl e \<Rightarrow> ([], Inl e)
      | Inr anvilModels \<Rightarrow>
          (case parse_models (local_model env) (localOllama env) of
             Inl e \<Rightarrow> ([], Inl e)
           | Inr localModels \<Rightarrow>
               (case (if ok (anvilOllama env) then getAnvilSystem env [] else ([], Null)) of
                  (log1, anvilSystem) \<Rightarrow>
                    (case getHearthSystem env log1 of
                       (log2, hearthSystem) \<Rightarrow>
                         (case run env log2 ''tailscale status --json 2>/dev/null'' 5000 of
                            (log3, tailscaleStatus) \<Rightarrow>
                              (case run env log3 ''/usr/sbin/lsof -ti:3000'' 5000 of
                                 (log4, lsof3000) \<Rightarrow>
                                   (case run env log4 ''/usr/sbin/lsof -ti:3002'' 5000 of
                                      (log5, lsof3002) \<Rightarrow>
                                        (case run env log5 ''/usr/sbin/lsof -ti:3003'' 5000 of
                                           (log6, lsof3003) \<Rightarrow>
                                             (log6,
                                              Inr \<lparr>http_status = 200,
                                                   http_body =
                                                     fleet_object env anvilModels localModels
                                                       anvilSystem hearthSystem
                                                       (if ok (litellm env)
                                                        then models_fetched env else [])
                                                       (tailscale_devices env tailscaleStatus)
                                                       lsof3000 lsof3002 lsof3003\<rparr>)))))))))"

subsection \<open>Example environments\<close>

text \<open>A probe that timed out after 3000 ms, and one that was answered with no models.\<close>

definition timed_out :: "(char, jsval) probe_result" where
  "timed_out =
     \<lparr>ok = False, latencyMs = 3000, statusCode = None, data = None, timeout = Some True\<rparr>"

definition answered :: "jsval \<Rightarrow> (char, jsval) probe_result" where
  "answered v =
     \<lparr>ok = True, latencyMs = 12, statusCode = Some 200, data = Some (Parsed v), timeout = None\<rparr>"

text \<open>Every probe timed out and every command fails.\<close>

definition all_down :: fleet_env where
  "all_down =
     \<lparr>anvilOllama = timed_out, anvilOllamaTs = timed_out, litellm = timed_out,
      localOllama = timed_out, models_fetched = [],
      execSync = (\<lambda>cmd t. Inl TypeError), trim = (\<lambda>s. s),
      JSON_parse = (\<lambda>s. Inl SyntaxError), match_field = (\<lambda>label s. None),
      replace_up = (\<lambda>s. s), size_GB = (\<lambda>v. Inr ''0.0GB''), total_size = (\<lambda>ms. ''0.0''),
      os_hostname = ''hearth'', os_cpus = Num 12, os_totalMemGB = Num 64,
      os_freeMemGB = Num 32, os_loadavg = Arr [],
      toISOString = ''2026-01-01T00:00:00.000Z''\<rparr>"

text \<open>Anvil answers the probe on the LAN with an empty list of models.\<close>

definition anvil_up :: fleet_env where
  "anvil_up = all_down\<lparr>anvilOllama := answered (Obj [(''models'', Arr [])])\<rparr>"

text \<open>Anvil answers with a list of models whose one entry is \<open>null\<close>.\<close>

definition anvil_odd :: fleet_env where
  "anvil_odd = all_down\<lparr>anvilOllama := answered (Obj [(''models'', Arr [Null])])\<rparr>"

text \<open>
  The keys an object must have, level by level: \<open>Keys\<close> lists the keys of an object in
  their order, each with what its value must have; \<open>Anything\<close> asks nothing of a value.
\<close>

datatype shape = Anything | Keys "(string \<times> shape) list"

fun has_shape :: "jsval \<Rightarrow> shape \<Rightarrow> bool"
  and have_shapes :: "(string \<times> jsval) list \<Rightarrow> (string \<times> shape) list \<Rightarrow> bool" where
  "has_shape v Anything = True"
| "has_shape (Obj kvs) (Keys ks) = have_shapes kvs ks"
| "has_shape v (Keys ks) = False"
| "have_shapes [] [] = True"
| "have_shapes (kv # kvs) (ks # kss) =
     (fst kv = fst ks \<and> has_shape (snd kv) (snd ks) \<and> have_shapes kvs kss)"
| "have_shapes kvs kss = False"

text \<open>The keys of the object literal \<open>fleet\<close>.\<close>

definition port_status :: shape where
  "port_status = Keys [(''port'', Anything), (''status'', Anything)]"

definition hearth_shape :: shape where
  "hearth_shape =
     Keys [(''name'', Anything), (''model'', Anything),
           (''specs'', Keys [(''ram'', Anything), (''cpu'', Anything), (''gpu'', Anything),
                             (''storage'', Anything)]),
           (''role'', Anything),
           (''ip'', Keys [(''lan'', Anything)]),
           (''system'', Anything),
           (''services'',
            Keys [(''dashboard'', port_status), (''api'', port_status),
                  (''promptBrowser'', port_status), (''contactVerify'', port_status),
                  (''litellm'', Keys [(''port'', Anything), (''status'', Anything),
                                      (''latencyMs'', Anything)]),
                  (''ollama'', port_status)]),
           (''models'', Anything)]"

definition anvil_shape :: shape where
  "anvil_shape =
     Keys [(''name'', Anything), (''model'', Anything),
           (''specs'', Keys [(''ram'', Anything), (''cpu'', Anything), (''gpu'', Anything),
                             (''storage'', Anything), (''bandwidth'', Anything)]),
           (''role'', Anything),
           (''ip'', Keys [(''lan'', Anything), (''tailscale'', Anything)]),
           (''system'', Anything),
           (''connectivity'',
            Keys [(''lan'', Keys [(''reachable'', Anything), (''latencyMs'', Anything)]),
                  (''tailscale'', Keys [(''reachable'', Anything), (''latencyMs'', Anything)])]),
           (''ollama'', Keys [(''status'', Anything), (''models'', Anything),
                              (''totalSizeGB'', Anything)])]"

definition nas_shape :: shape where
  "nas_shape =
     Keys [(''name'', Anything), (''role'', Anything),
           (''ip'', Keys [(''lan'', Anything), (''tailscale'', Anything)]),
           (''specs'', Keys [(''ram'', Anything), (''storage'', Anything), (''arch'', Anything)]),
           (''services'', Anything)]"

definition mobile_shape :: shape where
  "mobile_shape =
     Keys [(''ipad'', Keys [(''name'', Anything), (''role'', Anything),
                            (''capabilities'', Anything)]),
           (''iphone'', Keys [(''name'', Anything), (''role'', Anything),
                              (''capabilities'', Anything)])]"

definition routing_shape :: shape where
  "routing_shape =
     Keys [(''litellm'', Keys [(''status'', Anything), (''port'', Anything),
                               (''models'', Anything), (''description'', Anything)]),
           (''flowDescription'', Anything)]"

definition fleet_shape :: shape where
  "fleet_shape =
     Keys [(''timestamp'', Anything),
           (''machines'', Keys [(''hearth'', hearth_shape), (''anvil'', anvil_shape),
                                (''nas'', nas_shape), (''mobile'', mobile_shape)]),
           (''routing'', routing_shape),
           (''tailscale'', Keys [(''devices'', Anything), (''meshSize'', Anything)])]"

section \<open>Facts about strings\<close>

lemma startsWith_iff: "startsWith s t \<longleftrightarrow> (\<exists>q. s = t @ q)"
  by (induction s t rule: startsWith.induct) auto

lemma includes_str_iff: "includes_str s t \<longleftrightarrow> (\<exists>p q. s = p @ t @ q)"
proof (induction s)
  case Nil
  then show ?case by auto
next
  case (Cons c cs)
  show ?case
  proof
    assume "includes_str (c # cs) t"
    then consider "startsWith (c # cs) t" | "includes_str cs t" by auto
    then show "\<exists>p q. c # cs = p @ t @ q"
    proof cases
      case 1
      then obtain q where "c # cs = t @ q" by (auto simp: startsWith_iff)
      then have "c # cs = [] @ t @ q" by simp
      then show ?thesis by blast
    next
      case 2
      with Cons obtain p q where "cs = p @ t @ q" by auto
      then have "c # cs = (c # p) @ t @ q" by simp
      then show ?thesis by blast
    qed
  next
    assume "\<exists>p q. c # cs = p @ t @ q"
    then obtain p q where e: "c # cs = p @ t @ q" by blast
    show "includes_str (c # cs) t"
    proof (cases p)
      case Nil
      with e have "startsWith (c # cs) t" by (auto simp: startsWith_iff)
      then show ?thesis by simp
    next
      case (Cons a p')
      with e have "cs = p' @ t @ q" by simp
      with Cons.IH have "includes_str cs t" by blast
      then show ?thesis by simp
    qed
  qed
qed

section \<open>Facts about the health map\<close>













lemma fusion_snoc_skip:
  "\<not> isRecentlyActive s \<Longrightarrow> fusion rows (pre @ [s]) = fusion rows pre"
  by (simp add: fusion_def)






section \<open>The aggregator's fusion\<close>



section \<open>The probe\<close>

lemma resolved_stays:
  "resolved st = Some r \<Longrightarrow> resolved (on_event P s t st ev) = Some r"
  by (cases ev) (auto simp: on_event_def resolve_def split: option.splits sum.splits)

lemma resolved_stays_foldl:
  "resolved st = Some r \<Longrightarrow> resolved (foldl (on_event P s t) st evs) = Some r"
  by (induction evs arbitrary: st) (auto simp: resolved_stays)

lemma quiet_pending:
  "quiet ev \<Longrightarrow> resolved (on_event P s t st ev) = resolved st"
  by (cases ev) (auto simp: on_event_def split: option.splits)

lemma quiet_pending_foldl:
  "list_all quiet pre \<Longrightarrow> resolved (foldl (on_event P s t) st pre) = resolved st"
  by (induction pre arbitrary: st) (auto simp: quiet_pending)

lemma chunks_body:
  "res st = Some code \<Longrightarrow>
   foldl (on_event P s t) st (map ResData chunks)
     = st\<lparr>body := body st @ concat chunks\<rparr>"
  by (induction chunks arbitrary: st) (auto simp: on_event_def)

lemma probe_split:
  "probe P s t (pre @ ev # post) =
     resolved (foldl (on_event P s t)
       (on_event P s t (foldl (on_event P s t) \<lparr>res = None, body = [], resolved = None\<rparr> pre) ev) post)"
  by (simp add: probe_def)

text \<open>
  Claim C2 says that every path of \<open>probe\<close> ends in a ProbeResult. \<open>probe\<close> registers
  callbacks for \<open>data\<close> and \<open>end\<close> of the response and for \<open>error\<close> and \<open>timeout\<close>
  of the request, and for nothing else: none for \<open>error\<close>, \<open>aborted\<close> or \<open>close\<close> of
  the response. When the server sends the head of a response and a part of the body and
  then closes the connection, the callbacks that run are the response callback and
  \<open>data\<close>; no callback that resolves runs after them, and the promise stays pending.
\<close>

theorem probe_pending_after_close:
  "probe (\<lambda>b. Inl SyntaxError :: js_error + unit) 0 300 [Response 200, ResData ''{''] = None"
  by (simp add: probe_def on_event_def)

text \<open>
  What holds of \<open>probe\<close>: no callback raises (each is a total function of the state,
  and the one call that can throw, \<open>JSON.parse\<close>, is inside the \<open>try\<close>), and the
  first of the settling callbacks to run gives the promise its value, whatever follows.
  After any responses and chunks \<open>pre\<close>, the timeout gives
  \<open>{ok: false, latencyMs: timeout, timeout: true}\<close> and a connection error at time
  \<open>now\<close> gives \<open>{ok: false, latencyMs: now - start}\<close> with no \<open>timeout\<close> property,
  also as the very first event; the end of a response gives a result with \<open>ok\<close> true.
  As long as only the response and chunks of its body have been reported, the promise
  is pending.
\<close>

lemma probe_pending_while_quiet:
  "list_all quiet evs \<Longrightarrow> probe parse start timeout_ms evs = None"
  unfolding probe_def by (simp add: quiet_pending_foldl)

lemma probe_settles:
  fixes JSON_parse :: "'c list \<Rightarrow> js_error + 'j"
  assumes "list_all quiet pre"
  shows "probe JSON_parse start timeout_ms (pre @ ReqTimeout # post) =
           Some \<lparr>ok = False, latencyMs = timeout_ms, statusCode = None, data = None,
                 timeout = Some True\<rparr>
       \<and> probe JSON_parse start timeout_ms (pre @ ReqError now # post) =
           Some \<lparr>ok = False, latencyMs = now - start, statusCode = None, data = None,
                 timeout = None\<rparr>
       \<and> probe JSON_parse start timeout_ms (ReqError now # post) =
           Some \<lparr>ok = False, latencyMs = now - start, statusCode = None, data = None,
                 timeout = None\<rparr>
       \<and> (\<exists>r. probe JSON_parse start timeout_ms
                 (Response code # map ResData chunks @ ResEnd now # post) = Some r
              \<and> ok r \<and> latencyMs r = now - start \<and> statusCode r = Some code)"
proof -
  let ?st0 = "\<lparr>res = None, body = [], resolved = None\<rparr> :: ('c, 'j) probe_state"
  let ?f = "on_event JSON_parse start timeout_ms"
  have pend: "resolved (foldl ?f ?st0 pre) = None"
    using quiet_pending_foldl[OF assms, of JSON_parse start timeout_ms ?st0] by simp
  have a: "probe JSON_parse start timeout_ms (pre @ ReqTimeout # post) =
           Some \<lparr>ok = False, latencyMs = timeout_ms, statusCode = None, data = None,
                 timeout = Some True\<rparr>"
    unfolding probe_split
    by (rule resolved_stays_foldl) (simp add: on_event_def resolve_def pend)
  have b: "probe JSON_parse start timeout_ms (pre @ ReqError now # post) =
           Some \<lparr>ok = False, latencyMs = now - start, statusCode = None, data = None,
                 timeout = None\<rparr>"
    unfolding probe_split
    by (rule resolved_stays_foldl) (simp add: on_event_def resolve_def pend)
  have c: "probe JSON_parse start timeout_ms (ReqError now # post) =
           Some \<lparr>ok = False, latencyMs = now - start, statusCode = None, data = None,
                 timeout = None\<rparr>"
    unfolding probe_def foldl_Cons
    by (rule resolved_stays_foldl) (simp add: on_event_def resolve_def)
  let ?st1 = "\<lparr>res = Some code, body = [], resolved = None\<rparr> :: ('c, 'j) probe_state"
  have st1: "?f ?st0 (Response code) = ?st1" by (simp add: on_event_def)
  have st2: "foldl ?f ?st1 (map ResData chunks) = ?st1\<lparr>body := concat chunks\<rparr>"
    using chunks_body[of ?st1 code JSON_parse start timeout_ms chunks] by simp
  have "\<exists>r. resolved (?f (?st1\<lparr>body := concat chunks\<rparr>) (ResEnd now)) = Some r
          \<and> ok r \<and> latencyMs r = now - start \<and> statusCode r = Some code"
    by (cases "JSON_parse (concat chunks)") (simp_all add: on_event_def resolve_def)
  then obtain r where r: "resolved (?f (?st1\<lparr>body := concat chunks\<rparr>) (ResEnd now)) = Some r"
      and rp: "ok r \<and> latencyMs r = now - start \<and> statusCode r = Some code" by blast
  have "probe JSON_parse start timeout_ms (Response code # map ResData chunks @ ResEnd now # post)
          = Some r"
    unfolding probe_def foldl_Cons foldl_append st1 st2
    by (rule resolved_stays_foldl) (rule r)
  with rp have d: "\<exists>r. probe JSON_parse start timeout_ms
                 (Response code # map ResData chunks @ ResEnd now # post) = Some r
              \<and> ok r \<and> latencyMs r = now - start \<and> statusCode r = Some code" by blast
  from a b c d show ?thesis by blast
qed

lemma probe_settles_example:
  "list_all quiet [Response 200, ResData ''{'']
   \<and> probe (\<lambda>b. Inl SyntaxError :: js_error + unit) 1000 3000
        ([Response 200, ResData ''{''] @ ReqTimeout # [ReqError 4001]) =
       Some \<lparr>ok = False, latencyMs = 3000, statusCode = None, data = None, timeout = Some True\<rparr>
   \<and> probe (\<lambda>b. Inl SyntaxError :: js_error + unit) 1000 3000
        (([] :: char http_event list) @ ReqError 1002 # []) =
       Some \<lparr>ok = False, latencyMs = 2, statusCode = None, data = None, timeout = None\<rparr>"
proof -
  have q: "list_all quiet [Response 200, ResData ''{'']" by simp
  have n: "list_all quiet ([] :: char http_event list)" by simp
  from probe_settles [OF q, of "\<lambda>b. Inl SyntaxError :: js_error + unit" 1000 3000 "[ReqError 4001]"]
    probe_settles [OF n, of "\<lambda>b. Inl SyntaxError :: js_error + unit" 1000 3000 "[]" 1002]
  show ?thesis using q by simp
qed

text \<open>
  Claim C4. When the response arrives (its callback, the chunks of its body, its end) and
  \<open>JSON.parse\<close> throws on the body, the probe is a success all the same: \<open>ok\<close> is
  true, the status code is kept, and \<open>data\<close> is the first 500 code units of the body
  as text. No error leaves the callback.
\<close>

theorem probe_parse_failure_is_not_failure:
  fixes JSON_parse :: "'c list \<Rightarrow> js_error + 'j"
  assumes "JSON_parse (concat chunks) = Inl e"
  shows "probe JSON_parse start timeout_ms
           (Response code # map ResData chunks @ ResEnd now # post) =
         Some \<lparr>ok = True, latencyMs = now - start, statusCode = Some code,
               data = Some (RawText (take 500 (concat chunks))), timeout = None\<rparr>"
proof -
  let ?st0 = "\<lparr>res = None, body = [], resolved = None\<rparr> :: ('c, 'j) probe_state"
  let ?f = "on_event JSON_parse start timeout_ms"
  let ?st1 = "\<lparr>res = Some code, body = [], resolved = None\<rparr> :: ('c, 'j) probe_state"
  have st1: "?f ?st0 (Response code) = ?st1" by (simp add: on_event_def)
  have st2: "foldl ?f ?st1 (map ResData chunks) = ?st1\<lparr>body := concat chunks\<rparr>"
    using chunks_body[of ?st1 code JSON_parse start timeout_ms chunks] by simp
  show ?thesis
    unfolding probe_def foldl_Cons foldl_append st1 st2
    by (rule resolved_stays_foldl) (simp add: on_event_def resolve_def assms)
qed

theorem probe_parse_failure_is_not_failure_witness:
  "probe (\<lambda>b. if b = ''{}'' then Inr () else Inl SyntaxError) 1000 3000
     (Response 200 # map ResData [''<ht'', ''ml>''] @ ResEnd 1012 # []) =
   Some \<lparr>ok = True, latencyMs = 12, statusCode = Some 200,
         data = Some (RawText ''<html>''), timeout = None\<rparr>"
  using probe_parse_failure_is_not_failure
    [of "\<lambda>b. if b = ''{}'' then Inr () else Inl SyntaxError" "[''<ht'', ''ml>'']" SyntaxError
        1000 3000 200 1012 "[]"]
  by simp

section \<open>The vault endpoints\<close>

lemma split_from_no_sep: "sep \<notin> set s \<Longrightarrow> split_from sep cur s = [cur @ s]"
  by (induction s arbitrary: cur) auto

lemma takeWhile_upto: "c \<notin> set xs \<Longrightarrow> takeWhile (\<lambda>x. x \<noteq> c) (xs @ c # ys) = xs"
  by (induction xs) auto

lemma dropWhile_upto: "c \<notin> set xs \<Longrightarrow> dropWhile (\<lambda>x. x \<noteq> c) (xs @ c # ys) = c # ys"
  by (induction xs) auto

lemma takeWhile_absent: "c \<notin> set xs \<Longrightarrow> takeWhile (\<lambda>x. x \<noteq> c) xs = xs"
  by (induction xs) auto

lemma query_pairs_single:
  assumes r: "CHR ''&'' \<notin> set raw" "CHR ''#'' \<notin> set raw"
    and p: "CHR ''#'' \<notin> set path" "CHR ''?'' \<notin> set path"
    and k: "CHR ''&'' \<notin> set key" "CHR ''#'' \<notin> set key" "CHR ''='' \<notin> set key" "key \<noteq> []"
  shows "query_pairs (path @ CHR ''?'' # key @ CHR ''='' # raw) = [(form_decode key, form_decode raw)]"
proof -
  have "CHR ''#'' \<notin> set (path @ CHR ''?'' # key @ CHR ''='' # raw)"
    using r p k by auto
  then have t: "takeWhile (\<lambda>c. c \<noteq> CHR ''#'') (path @ CHR ''?'' # key @ CHR ''='' # raw)
              = path @ CHR ''?'' # key @ CHR ''='' # raw"
    by (rule takeWhile_absent)
  have d: "dropWhile (\<lambda>c. c \<noteq> CHR ''?'') (path @ CHR ''?'' # key @ CHR ''='' # raw)
              = CHR ''?'' # key @ CHR ''='' # raw"
    using p(2) by (rule dropWhile_upto)
  have "CHR ''&'' \<notin> set (key @ CHR ''='' # raw)" using r k by auto
  then have s: "split CHR ''&'' (key @ CHR ''='' # raw) = [key @ CHR ''='' # raw]"
    unfolding split_def by (simp add: split_from_no_sep)
  have tk: "takeWhile (\<lambda>c. c \<noteq> CHR ''='') (key @ CHR ''='' # raw) = key"
    using k(3) by (rule takeWhile_upto)
  have dk: "dropWhile (\<lambda>c. c \<noteq> CHR ''='') (key @ CHR ''='' # raw) = CHR ''='' # raw"
    using k(3) by (rule dropWhile_upto)
  show ?thesis
    unfolding query_pairs_def t d Let_def by (simp add: s tk dk)
qed

lemma query_get_dir:
  assumes "CHR ''&'' \<notin> set raw" "CHR ''#'' \<notin> set raw"
  shows "query_pairs (''/api/vault/notes?dir='' @ raw) = [(''dir'', form_decode raw)]"
  using query_pairs_single[OF assms, of "''/api/vault/notes''" "''dir''"] by simp

lemma query_get_path:
  assumes "CHR ''&'' \<notin> set raw" "CHR ''#'' \<notin> set raw"
  shows "query_pairs (''/api/vault/note?path='' @ raw) = [(''path'', form_decode raw)]"
  using query_pairs_single[OF assms, of "''/api/vault/note''" "''path''"] by simp

lemma includes_dotdot_nonempty: "(\<exists>p q. d = p @ ''..'' @ q) \<Longrightarrow> or_else (Some d) [] = d"
  by (auto simp: or_else_def)

text \<open>
  Claim C6. In both handlers the value that the URL's \<open>searchParams.get\<close> returns for
  \<open>dir\<close> (for \<open>path\<close>) is the decoded parameter; when \<open>..\<close> occurs in it the answer
  is 400 with an error body, and the file system is not touched. With the parameters
  read as the platform reads a query string, this holds for every way of writing the
  value in the request: whenever the decoded text of \<open>raw\<close> contains \<open>..\<close>, the
  requests \<open>/api/vault/notes?dir=raw\<close> and \<open>/api/vault/note?path=raw\<close> are answered
  400.
\<close>

theorem vault_traversal_rejected:
  "(\<forall>get d. searchParams_of req_url = Inr get \<and> get ''dir'' = Some d
        \<and> (\<exists>p q. d = p @ ''..'' @ q) \<longrightarrow>
      vault_notes searchParams_of fs req_url =
        Inr \<lparr>http_status = 400, http_body = VaultError ''Invalid directory''\<rparr>)
   \<and> (\<forall>get d. searchParams_of req_url = Inr get \<and> get ''path'' = Some d
        \<and> (\<exists>p q. d = p @ ''..'' @ q) \<longrightarrow>
      vault_note searchParams_of fs req_url =
        Inr \<lparr>http_status = 400, http_body = VaultError ''Invalid path''\<rparr>)
   \<and> (\<forall>raw. CHR ''&'' \<notin> set raw \<and> CHR ''#'' \<notin> set raw
        \<and> (\<exists>p q. form_decode raw = p @ ''..'' @ q) \<longrightarrow>
      vault_notes query_get fs (''/api/vault/notes?dir='' @ raw) =
        Inr \<lparr>http_status = 400, http_body = VaultError ''Invalid directory''\<rparr>
      \<and> vault_note query_get fs (''/api/vault/note?path='' @ raw) =
        Inr \<lparr>http_status = 400, http_body = VaultError ''Invalid path''\<rparr>)"
proof (intro conjI allI impI)
  fix get d
  assume a: "searchParams_of req_url = Inr get \<and> get ''dir'' = Some d
        \<and> (\<exists>p q. d = p @ ''..'' @ q)"
  then have "includes_str d ''..''" by (simp add: includes_str_iff)
  with a show "vault_notes searchParams_of fs req_url =
        Inr \<lparr>http_status = 400, http_body = VaultError ''Invalid directory''\<rparr>"
    by (simp add: vault_notes_def includes_dotdot_nonempty)
next
  fix get d
  assume a: "searchParams_of req_url = Inr get \<and> get ''path'' = Some d
        \<and> (\<exists>p q. d = p @ ''..'' @ q)"
  then have "includes_str d ''..''" by (simp add: includes_str_iff)
  with a show "vault_note searchParams_of fs req_url =
        Inr \<lparr>http_status = 400, http_body = VaultError ''Invalid path''\<rparr>"
    by (simp add: vault_note_def includes_dotdot_nonempty)
next
  fix raw
  assume a: "CHR ''&'' \<notin> set raw \<and> CHR ''#'' \<notin> set raw
        \<and> (\<exists>p q. form_decode raw = p @ ''..'' @ q)"
  then have i: "includes_str (form_decode raw) ''..''" by (simp add: includes_str_iff)
  from a have q: "query_pairs (''/api/vault/notes?dir='' @ raw) = [(''dir'', form_decode raw)]"
    using query_get_dir [of raw] by blast
  from a i show "vault_notes query_get fs (''/api/vault/notes?dir='' @ raw) =
        Inr \<lparr>http_status = 400, http_body = VaultError ''Invalid directory''\<rparr>"
    unfolding vault_notes_def query_get_def q
    by (simp add: includes_dotdot_nonempty)
next
  fix raw
  assume a: "CHR ''&'' \<notin> set raw \<and> CHR ''#'' \<notin> set raw
        \<and> (\<exists>p q. form_decode raw = p @ ''..'' @ q)"
  then have i: "includes_str (form_decode raw) ''..''" by (simp add: includes_str_iff)
  from a have q: "query_pairs (''/api/vault/note?path='' @ raw) = [(''path'', form_decode raw)]"
    using query_get_path [of raw] by blast
  from a i show "vault_note query_get fs (''/api/vault/note?path='' @ raw) =
        Inr \<lparr>http_status = 400, http_body = VaultError ''Invalid path''\<rparr>"
    unfolding vault_note_def query_get_def q
    by (simp add: includes_dotdot_nonempty)
qed

theorem vault_traversal_rejected_witness:
  "vault_notes query_get empty_vault (''/api/vault/notes?dir='' @ ''../private'') =
      Inr \<lparr>http_status = 400, http_body = VaultError ''Invalid directory''\<rparr>
   \<and> vault_note query_get empty_vault (''/api/vault/note?path='' @ ''..%2Fsecrets.md'') =
      Inr \<lparr>http_status = 400, http_body = VaultError ''Invalid path''\<rparr>
   \<and> vault_note query_get empty_vault (''/api/vault/note?path='' @ ''a/%2e%2E/b'') =
      Inr \<lparr>http_status = 400, http_body = VaultError ''Invalid path''\<rparr>"
proof -
  have 1: "form_decode ''../private'' = [] @ ''..'' @ ''/private''"
    by (simp add: hexDigit_def)
  have 2: "form_decode ''..%2Fsecrets.md'' = [] @ ''..'' @ ''/secrets.md''"
    by code_simp
  have 3: "form_decode ''a/%2e%2E/b'' = ''a/'' @ ''..'' @ ''/b''"
    by code_simp
  have a: "\<exists>p q. form_decode ''../private'' = p @ ''..'' @ q" using 1 by blast
  have b: "\<exists>p q. form_decode ''..%2Fsecrets.md'' = p @ ''..'' @ q" using 2 by blast
  have c: "\<exists>p q. form_decode ''a/%2e%2E/b'' = p @ ''..'' @ q" using 3 by blast
  from vault_traversal_rejected [of query_get "[]" empty_vault] a b c
  show ?thesis by simp
qed

section \<open>The router\<close>

text \<open>
  Claim C3 says that \<open>Router.match\<close> returns a match exactly when a route has the
  method, the number of segments and the literal segments of the target. At the target
  \<open>/api/atlas/assets/%zz\<close> the route \<open>GET /api/atlas/assets/:id\<close> satisfies that
  condition, and \<open>match\<close> returns nothing: \<open>decodeURIComponent\<close> throws URIError on
  the segment \<open>%zz\<close> and no \<open>try\<close> stands around it.
\<close>

theorem router_match_malformed_escape:
  "structural \<lparr>route_method = ''GET'', pattern = ''/api/atlas/assets/:id'', handler = ''asset''\<rparr>
     ''GET'' ''/api/atlas/assets/%zz''
   \<and> Router_match origin_pathname (router_get [] ''/api/atlas/assets/:id'' ''asset'')
       ''GET'' ''/api/atlas/assets/%zz'' = Inl URIError"
  by (simp add: structural_def Router_match_def origin_pathname_def router_get_def
      matchPattern_def split_def decodeURIComponent_def hexDigit_def)

section \<open>The asset list\<close>

text \<open>
  Claim C10 says that no response holds more than 200 rows. The limit handed to the
  statement is \<open>Math.min(parseInt(limit), 200)\<close>, which is bounded above only: for
  \<open>limit=-1\<close> it is \<open>-1\<close>, which SQLite reads as no limit, and a table of 201 rows is
  returned whole.
\<close>

theorem atlas_negative_limit:
  "atlas_assets query_get (Some (replicate 201 (''voice_memo'', ()))) table_all table_count
     ''/api/atlas/assets?limit=-1'' =
   Inr \<lparr>http_status = 200,
        http_body = Assets (replicate 201 ()) 201 (Some (- 1)) (Some 0)\<rparr>"
  by (simp add: atlas_assets_def query_get_def query_pairs_def split_def or_else_def
      parseInt_def isWhiteSpace_def isDigit_def digitValue_def hexDigit_def Math_min_def
      table_all_def table_count_def sqlite_limit_def)

section \<open>The aggregator in a store\<close>

lemma deref_map_set:
  "list_all (\<lambda>r. r < length h) (map snd rm) \<Longrightarrow>
   deref (h @ [v]) (map_set k (length h) rm) = map_set k v (deref h rm)"
  by (induction rm) (force simp: deref_def nth_append list_all_iff)+

lemma refs_map_set: "x \<in> set (map snd (map_set k r rm)) \<Longrightarrow> x = r \<or> x \<in> set (map snd rm)"
  by (induction rm) (force split: if_splits)+

lemma distinct_map_set:
  "distinct (map snd rm) \<Longrightarrow> r \<notin> set (map snd rm) \<Longrightarrow> distinct (map snd (map_set k r rm))"
proof (induction rm)
  case Nil
  then show ?case by simp
next
  case (Cons e rm)
  obtain k' r' where e: "e = (k', r')" by (cases e)
  show ?case
  proof (cases "k' = k")
    case True
    with Cons.prems e show ?thesis by auto
  next
    case False
    have "r' \<notin> set (map snd (map_set k r rm))"
      using refs_map_set[of r' k r rm] Cons.prems e by auto
    with Cons e False show ?thesis by auto
  qed
qed

lemma represents_alloc:
  assumes "represents (rm, h) m"
  shows "represents (map_set k (length h) rm, h @ [v]) (map_set k v m)"
proof -
  from assms have d: "deref h rm = m" and dis: "distinct (map snd rm)"
    and b: "list_all (\<lambda>r. r < length h) (map snd rm)"
    by (auto simp: represents_def)
  from b have fresh: "length h \<notin> set (map snd rm)" by (auto simp: list_all_iff)
  have 1: "deref (h @ [v]) (map_set k (length h) rm) = map_set k v m"
    using deref_map_set[OF b] d by simp
  have 2: "distinct (map snd (map_set k (length h) rm))"
    by (rule distinct_map_set[OF dis fresh])
  have 3: "list_all (\<lambda>r. r < length (h @ [v])) (map snd (map_set k (length h) rm))"
    unfolding list_all_iff
  proof
    fix x assume "x \<in> set (map snd (map_set k (length h) rm))"
    from refs_map_set[OF this] b show "x < length (h @ [v])"
      by (auto simp: list_all_iff)
  qed
  from 1 2 3 show ?thesis by (simp add: represents_def)
qed

lemma represents_seed_aux:
  "represents mh m \<Longrightarrow>
   represents
     (foldl (\<lambda>(m, h) agent.
              (case alloc (protocol_entry agent) h of
                 (r, h') \<Rightarrow> (map_set (pa_name agent) r m, h'))) mh rows)
     (foldl (\<lambda>m agent. map_set (pa_name agent) (protocol_entry agent) m) m rows)"
proof (induction rows arbitrary: mh m)
  case Nil
  then show ?case by simp
next
  case (Cons a rows)
  obtain rm h where mh: "mh = (rm, h)" by (cases mh)
  from Cons.prems mh
  have "represents (map_set (pa_name a) (length h) rm, h @ [protocol_entry a])
          (map_set (pa_name a) (protocol_entry a) m)"
    by (simp add: represents_alloc)
  from Cons.IH[OF this] show ?case by (simp add: mh alloc_def)
qed

lemma represents_seed: "represents (seed_in h0 rows) (seed rows)"
  unfolding seed_in_def seed_def
  by (rule represents_seed_aux) (simp add: represents_def deref_def)

lemma find_refs_None:
  "find (\<lambda>r. P (h ! r)) (map snd rm) = None \<longleftrightarrow> find P (map snd (deref h rm)) = None"
  by (induction rm) (auto simp: deref_def)

lemma deref_update_first:
  "find (\<lambda>r. P (h ! r)) (map snd rm) = Some e \<Longrightarrow> distinct (map snd rm) \<Longrightarrow>
   list_all (\<lambda>r. r < length h) (map snd rm) \<Longrightarrow>
   deref (h[e := f (h ! e)]) rm = update_first P f (deref h rm)"
proof (induction rm)
  case Nil
  then show ?case by simp
next
  case (Cons x rm)
  obtain k r where x: "x = (k, r)" by (cases x)
  show ?case
  proof (cases "P (h ! r)")
    case True
    with Cons.prems x have e: "e = r" by simp
    from Cons.prems x have "r \<notin> set (map snd rm)" by simp
    then have "deref (h[r := f (h ! r)]) rm = deref h rm"
      by (induction rm) (auto simp: deref_def)
    with True e x Cons.prems show ?thesis by (simp add: deref_def)
  next
    case False
    with Cons.prems x have f: "find (\<lambda>r. P (h ! r)) (map snd rm) = Some e" by simp
    then have "e \<in> set (map snd rm)" by (auto simp: find_Some_iff)
    with Cons.prems x have "e \<noteq> r" by auto
    moreover have "deref (h[e := f (h ! e)]) rm = update_first P f (deref h rm)"
      using Cons.IH[OF f] Cons.prems by simp
    ultimately show ?thesis using False x by (simp add: deref_def)
  qed
qed

lemma represents_fuse_session:
  assumes "represents mh m"
  shows "represents (fuse_session_in mh s) (fuse_session m s)"
proof -
  obtain rm h where mh: "mh = (rm, h)" by (cases mh)
  from assms mh have d: "deref h rm = m" and dis: "distinct (map snd rm)"
    and b: "list_all (\<lambda>r. r < length h) (map snd rm)"
    by (auto simp: represents_def)
  show ?thesis
  proof (cases "find (\<lambda>r. matches s (h ! r)) (map snd rm)")
    case None
    then have n: "find (matches s) (map snd m) = None"
      using find_refs_None[of "matches s" h rm] d by simp
    from assms mh have "represents (map_set (agentName s) (length h) rm, h @ [session_entry s])
          (map_set (agentName s) (session_entry s) m)"
      by (simp add: represents_alloc)
    with None n show ?thesis by (simp add: fuse_session_in_def fuse_session_def mh alloc_def)
  next
    case (Some e)
    then have "find (matches s) (map snd m) \<noteq> None"
      using find_refs_None[of "matches s" h rm] d by simp
    then obtain x where x: "find (matches s) (map snd m) = Some x" by auto
    have "deref (h[e := enrich s (h ! e)]) rm = update_first (matches s) (enrich s) m"
      using deref_update_first[OF Some dis b] d by simp
    with Some x dis b show ?thesis
      by (simp add: fuse_session_in_def fuse_session_def mh represents_def)
  qed
qed

lemma represents_foldl:
  "represents mh m \<Longrightarrow> represents (foldl fuse_session_in mh ss) (foldl fuse_session m ss)"
  by (induction ss arbitrary: mh m) (auto simp: represents_fuse_session)

lemma represents_fusion: "represents (fusion_in h0 rows ss) (fusion rows ss)"
  unfolding fusion_in_def fusion_def by (rule represents_foldl) (rule represents_seed)

lemma deref_fusion:
  "fusion_in h0 rows ss = (rm, h) \<Longrightarrow> deref h rm = fusion rows ss"
  using represents_fusion[of h0 rows ss] by (simp add: represents_def)

lemma getAgentHealth_in_pure:
  "fst (getAgentHealth_in h0 rows procs ss now) = getAgentHealth rows procs ss now"
proof -
  obtain rm h where f: "fusion_in h0 rows ss = (rm, h)" by (cases "fusion_in h0 rows ss")
  from deref_fusion[OF f] show ?thesis
    by (simp add: getAgentHealth_in_def getAgentHealth_def f Let_def)
qed

lemma framed_alloc:
  assumes "framed h0 (rm, h)"
  shows "framed h0 (map_set k (length h) rm, h @ [v])"
proof -
  from assms have t: "take (length h0) h = h0" and l: "length h0 \<le> length h"
    and b: "list_all (\<lambda>r. length h0 \<le> r) (map snd rm)"
    by (auto simp: framed_def)
  have "list_all (\<lambda>r. length h0 \<le> r) (map snd (map_set k (length h) rm))"
    unfolding list_all_iff
  proof
    fix x assume "x \<in> set (map snd (map_set k (length h) rm))"
    from refs_map_set[OF this] b l show "length h0 \<le> x" by (auto simp: list_all_iff)
  qed
  with t l show ?thesis by (simp add: framed_def)
qed

lemma framed_seed_aux:
  "framed h0 mh \<Longrightarrow>
   framed h0
     (foldl (\<lambda>(m, h) agent.
              (case alloc (protocol_entry agent) h of
                 (r, h') \<Rightarrow> (map_set (pa_name agent) r m, h'))) mh rows)"
proof (induction rows arbitrary: mh)
  case Nil
  then show ?case by simp
next
  case (Cons a rows)
  obtain rm h where mh: "mh = (rm, h)" by (cases mh)
  from Cons.prems mh
  have "framed h0 (map_set (pa_name a) (length h) rm, h @ [protocol_entry a])"
    by (simp add: framed_alloc)
  from Cons.IH[OF this] show ?case by (simp add: mh alloc_def)
qed

lemma framed_seed: "framed h0 (seed_in h0 rows)"
  unfolding seed_in_def by (rule framed_seed_aux) (simp add: framed_def)

lemma framed_fuse_session:
  assumes "framed h0 mh"
  shows "framed h0 (fuse_session_in mh s)"
proof -
  obtain rm h where mh: "mh = (rm, h)" by (cases mh)
  from assms mh have t: "take (length h0) h = h0" and l: "length h0 \<le> length h"
    and b: "list_all (\<lambda>r. length h0 \<le> r) (map snd rm)"
    by (auto simp: framed_def)
  show ?thesis
  proof (cases "find (\<lambda>r. matches s (h ! r)) (map snd rm)")
    case None
    from assms mh have "framed h0 (map_set (agentName s) (length h) rm, h @ [session_entry s])"
      by (simp add: framed_alloc)
    with None show ?thesis by (simp add: fuse_session_in_def mh alloc_def)
  next
    case (Some e)
    then have "e \<in> set (map snd rm)" by (auto simp: find_Some_iff)
    with b have "length h0 \<le> e" by (auto simp: list_all_iff)
    with t l b Some show ?thesis by (simp add: fuse_session_in_def mh framed_def)
  qed
qed

lemma framed_foldl:
  "framed h0 mh \<Longrightarrow> framed h0 (foldl fuse_session_in mh ss)"
  by (induction ss arbitrary: mh) (auto simp: framed_fuse_session)

lemma framed_fusion: "framed h0 (fusion_in h0 rows ss)"
  unfolding fusion_in_def by (rule framed_foldl) (rule framed_seed)

lemma deref_frame:
  "list_all (\<lambda>r. r < length h1) (map snd rm) \<Longrightarrow> take (length h1) h2 = h1 \<Longrightarrow>
   deref h2 rm = deref h1 rm"
proof -
  assume b: "list_all (\<lambda>r. r < length h1) (map snd rm)" and t: "take (length h1) h2 = h1"
  have "\<And>r. r < length h1 \<Longrightarrow> h2 ! r = h1 ! r"
  proof -
    fix r assume "r < length h1"
    then have "take (length h1) h2 ! r = h2 ! r" by simp
    with t show "h2 ! r = h1 ! r" by simp
  qed
  with b show ?thesis by (auto simp: deref_def list_all_iff)
qed

lemma active_parked_le: "active (summarize m) + parked (summarize m) \<le> total (summarize m)"
proof -
  have "length (filter (\<lambda>a. status a = ''Active'') xs)
      + length (filter (\<lambda>a. status a = ''Parked'') xs) \<le> length xs" for xs :: "health list"
    by (induction xs) auto
  from this[of "map snd m"] show ?thesis by (simp add: summarize_def)
qed

text \<open>
  Claim C8. \<open>getAgentHealth\<close> keeps nothing between calls. Run in any store \<open>h0\<close>, it
  returns what the fusion of the values returns, whatever the store holds. Run a second
  time on the same rows, process lines and session logs, in the store the first run
  left, it builds a map with the same keys and the same objects' contents in the same
  order, and the same summary; the objects of the first result and the store the first
  run started from are untouched by the second. In every result
  \<open>active + parked \<le> total\<close>.
\<close>

theorem fusion_idempotent:
  "fst (getAgentHealth_in h0 rows procs ss now) = getAgentHealth rows procs ss now
   \<and> (case fusion_in h0 rows ss of
        (m1, h1) \<Rightarrow>
          (case fusion_in h1 rows ss of
             (m2, h2) \<Rightarrow>
               deref h2 m2 = deref h1 m1
               \<and> summarize (deref h2 m2) = summarize (deref h1 m1)
               \<and> deref h2 m1 = deref h1 m1
               \<and> take (length h0) h2 = h0))
   \<and> (case getAgentHealth_in h0 rows procs ss now of
        (a1, h1) \<Rightarrow>
          (case getAgentHealth_in h1 rows procs ss now' of
             (a2, h2) \<Rightarrow> agents a2 = agents a1 \<and> summary a2 = summary a1))
   \<and> active (summary (getAgentHealth rows procs ss now))
       + parked (summary (getAgentHealth rows procs ss now))
       \<le> total (summary (getAgentHealth rows procs ss now))"
proof -
  obtain m1 h1 where f1: "fusion_in h0 rows ss = (m1, h1)" by (cases "fusion_in h0 rows ss")
  obtain m2 h2 where f2: "fusion_in h1 rows ss = (m2, h2)" by (cases "fusion_in h1 rows ss")
  have d1: "deref h1 m1 = fusion rows ss" by (rule deref_fusion[OF f1])
  have d2: "deref h2 m2 = fusion rows ss" by (rule deref_fusion[OF f2])
  from represents_fusion[of h0 rows ss] f1
  have b1: "list_all (\<lambda>r. r < length h1) (map snd m1)" by (simp add: represents_def)
  from framed_fusion[of h1 rows ss] f2
  have t2: "take (length h1) h2 = h1" by (simp add: framed_def)
  from framed_fusion[of h0 rows ss] f1
  have t1: "take (length h0) h1 = h0" and l1: "length h0 \<le> length h1"
    by (simp_all add: framed_def)
  have keep: "deref h2 m1 = deref h1 m1" by (rule deref_frame[OF b1 t2])
  have "take (length h0) (take (length h1) h2) = take (length h0) h2"
    using l1 by (simp add: min_def)
  with t1 t2 have t0: "take (length h0) h2 = h0" by simp
  have A: "fst (getAgentHealth_in h0 rows procs ss now) = getAgentHealth rows procs ss now"
    by (rule getAgentHealth_in_pure)
  have B: "(case fusion_in h0 rows ss of
        (m1, h1) \<Rightarrow>
          (case fusion_in h1 rows ss of
             (m2, h2) \<Rightarrow>
               deref h2 m2 = deref h1 m1
               \<and> summarize (deref h2 m2) = summarize (deref h1 m1)
               \<and> deref h2 m1 = deref h1 m1
               \<and> take (length h0) h2 = h0))"
    using d1 d2 keep t0 by (simp add: f1 f2)
  have C: "(case getAgentHealth_in h0 rows procs ss now of
        (a1, h1) \<Rightarrow>
          (case getAgentHealth_in h1 rows procs ss now' of
             (a2, h2) \<Rightarrow> agents a2 = agents a1 \<and> summary a2 = summary a1))"
    using d1 d2 by (simp add: getAgentHealth_in_def f1 f2)
  have D: "active (summary (getAgentHealth rows procs ss now))
       + parked (summary (getAgentHealth rows procs ss now))
       \<le> total (summary (getAgentHealth rows procs ss now))"
    using active_parked_le[of "fusion rows ss"] by (simp add: getAgentHealth_def Let_def)
  from A B C D show ?thesis by blast
qed

section \<open>The fleet snapshot\<close>

lemma run_log: "fst (run env log cmd t) = log @ [cmd]"
  by (simp add: run_def)

lemma getAnvilSystem_log: "fst (getAnvilSystem env log) = log @ [ssh_command]"
  by (auto simp: getAnvilSystem_def run_def split: option.splits)

lemma getHearthSystem_log:
  "fst (getHearthSystem env log) = log @ [''uptime'', ''df -h / | tail -1'']"
  by (simp add: getHearthSystem_def run_def)

lemma fleet_handler_log:
  "fst (fleet_handler env) = [] \<or>
   fst (fleet_handler env) =
     (if ok (anvilOllama env) then [ssh_command] else [])
     @ [''uptime'', ''df -h / | tail -1'', ''tailscale status --json 2>/dev/null'',
        ''/usr/sbin/lsof -ti:3000'', ''/usr/sbin/lsof -ti:3002'', ''/usr/sbin/lsof -ti:3003'']"
  by (auto simp: fleet_handler_def run_def getHearthSystem_def getAnvilSystem_def
      split: sum.splits option.splits prod.splits)

lemma ssh_command_other:
  "ssh_command \<noteq> ''uptime''" "ssh_command \<noteq> ''df -h / | tail -1''"
  "ssh_command \<noteq> ''tailscale status --json 2>/dev/null''"
  "ssh_command \<noteq> ''/usr/sbin/lsof -ti:3000''" "ssh_command \<noteq> ''/usr/sbin/lsof -ti:3002''"
  "ssh_command \<noteq> ''/usr/sbin/lsof -ti:3003''"
  by (simp_all add: ssh_command_def)

lemma fleet_handler_returns:
  "snd (fleet_handler env) = Inr r \<Longrightarrow>
   fst (fleet_handler env) =
     (if ok (anvilOllama env) then [ssh_command] else [])
     @ [''uptime'', ''df -h / | tail -1'', ''tailscale status --json 2>/dev/null'',
        ''/usr/sbin/lsof -ti:3000'', ''/usr/sbin/lsof -ti:3002'', ''/usr/sbin/lsof -ti:3003'']"
  by (auto simp: fleet_handler_def run_def getHearthSystem_def getAnvilSystem_def
      split: sum.splits option.splits prod.splits)

lemma probe_after_timeout:
  fixes JSON_parse :: "'c list \<Rightarrow> js_error + 'j"
  assumes "list_all quiet pre"
  shows "probe JSON_parse start timeout_ms (pre @ ReqTimeout # post) =
           Some \<lparr>ok = False, latencyMs = timeout_ms, statusCode = None, data = None,
                 timeout = Some True\<rparr>"
proof -
  let ?st0 = "\<lparr>res = None, body = [], resolved = None\<rparr> :: ('c, 'j) probe_state"
  have pend: "resolved (foldl (on_event JSON_parse start timeout_ms) ?st0 pre) = None"
    using quiet_pending_foldl[OF assms, of JSON_parse start timeout_ms ?st0] by simp
  show ?thesis
    unfolding probe_split
    by (rule resolved_stays_foldl) (simp add: on_event_def resolve_def pend)
qed

lemma probe_after_error:
  fixes JSON_parse :: "'c list \<Rightarrow> js_error + 'j"
  assumes "list_all quiet pre"
  shows "probe JSON_parse start timeout_ms (pre @ ReqError now # post) =
           Some \<lparr>ok = False, latencyMs = now - start, statusCode = None, data = None,
                 timeout = None\<rparr>"
proof -
  let ?st0 = "\<lparr>res = None, body = [], resolved = None\<rparr> :: ('c, 'j) probe_state"
  have pend: "resolved (foldl (on_event JSON_parse start timeout_ms) ?st0 pre) = None"
    using quiet_pending_foldl[OF assms, of JSON_parse start timeout_ms ?st0] by simp
  show ?thesis
    unfolding probe_split
    by (rule resolved_stays_foldl) (simp add: on_event_def resolve_def pend)
qed

text \<open>
  Claim C7. The handler logs every command it runs. The remote inspection (the \<open>ssh\<close>
  command of \<open>getAnvilSystem\<close>) is in the log only if the probe of Anvil on the LAN
  came back with \<open>ok\<close>; when the handler returns and that probe was \<open>ok\<close>, the
  inspection was run; and when that probe's result is what \<open>probe\<close> resolves to after
  a timeout or a connection error, the inspection was not run.
\<close>

theorem remote_inspection_gated:
  "(ssh_command \<in> set (fst (fleet_handler env)) \<longrightarrow> ok (anvilOllama env))
   \<and> (\<forall>r. snd (fleet_handler env) = Inr r \<and> ok (anvilOllama env) \<longrightarrow>
         ssh_command \<in> set (fst (fleet_handler env)))
   \<and> (\<forall>JSON_parse start timeout_ms pre post now.
         list_all quiet pre
         \<and> (probe JSON_parse start timeout_ms (pre @ ReqTimeout # post) = Some (anvilOllama env)
            \<or> probe JSON_parse start timeout_ms (pre @ ReqError now # post)
                = Some (anvilOllama env)) \<longrightarrow>
         ssh_command \<notin> set (fst (fleet_handler env)))"
proof -
  have A: "ssh_command \<in> set (fst (fleet_handler env)) \<longrightarrow> ok (anvilOllama env)"
    using fleet_handler_log[of env] by (auto simp: ssh_command_other)
  have B: "\<forall>r. snd (fleet_handler env) = Inr r \<and> ok (anvilOllama env) \<longrightarrow>
         ssh_command \<in> set (fst (fleet_handler env))"
    using fleet_handler_returns[of env] by auto
  have C: "\<forall>JSON_parse start timeout_ms pre post now.
         list_all quiet pre
         \<and> (probe JSON_parse start timeout_ms (pre @ ReqTimeout # post) = Some (anvilOllama env)
            \<or> probe JSON_parse start timeout_ms (pre @ ReqError now # post)
                = Some (anvilOllama env)) \<longrightarrow>
         ssh_command \<notin> set (fst (fleet_handler env))"
  proof (intro allI impI)
    fix JSON_parse :: "char list \<Rightarrow> js_error + jsval" and start timeout_ms pre post now
    assume h: "list_all quiet pre
         \<and> (probe JSON_parse start timeout_ms (pre @ ReqTimeout # post) = Some (anvilOllama env)
            \<or> probe JSON_parse start timeout_ms (pre @ ReqError now # post)
                = Some (anvilOllama env))"
    then have q: "list_all quiet pre" by simp
    from h consider
        (t) "probe JSON_parse start timeout_ms (pre @ ReqTimeout # post) = Some (anvilOllama env)"
      | (e) "probe JSON_parse start timeout_ms (pre @ ReqError now # post) = Some (anvilOllama env)"
      by blast
    then have "\<not> ok (anvilOllama env)"
    proof cases
      case t
      with probe_after_timeout[OF q, of JSON_parse start timeout_ms post]
      have "anvilOllama env = \<lparr>ok = False, latencyMs = timeout_ms, statusCode = None,
              data = None, timeout = Some True\<rparr>" by simp
      then have "ok (anvilOllama env) = False" by simp
      then show ?thesis by simp
    next
      case e
      with probe_after_error[OF q, of JSON_parse start timeout_ms now post]
      have "anvilOllama env = \<lparr>ok = False, latencyMs = now - start, statusCode = None,
              data = None, timeout = None\<rparr>" by simp
      then have "ok (anvilOllama env) = False" by simp
      then show ?thesis by simp
    qed
    with A show "ssh_command \<notin> set (fst (fleet_handler env))" by blast
  qed
  from A B C show ?thesis by blast
qed

theorem remote_inspection_gated_witness:
  "ssh_command \<notin> set (fst (fleet_handler all_down))
   \<and> list_all quiet [Response 200, ResData ''{'']
   \<and> probe (\<lambda>b. Inl SyntaxError) 0 3000 ([Response 200, ResData ''{''] @ ReqTimeout # [])
       = Some (anvilOllama all_down)
   \<and> snd (fleet_handler anvil_up) \<noteq> Inl TypeError \<and> ok (anvilOllama anvil_up)
   \<and> ssh_command \<in> set (fst (fleet_handler anvil_up))"
proof -
  have q: "list_all quiet [Response 200, ResData ''{'']" by simp
  have p: "probe (\<lambda>b. Inl SyntaxError) 0 3000 ([Response 200, ResData ''{''] @ ReqTimeout # [])
       = Some (anvilOllama all_down)"
    by (simp add: probe_def on_event_def resolve_def all_down_def timed_out_def)
  have d: "ssh_command \<notin> set (fst (fleet_handler all_down))"
    using remote_inspection_gated [of all_down] q p by blast
  have u: "ok (anvilOllama anvil_up)" by (simp add: anvil_up_def answered_def)
  have "\<exists>r. snd (fleet_handler anvil_up) = Inr r"
    by (simp add: fleet_handler_def anvil_up_def all_down_def answered_def timed_out_def
        parse_models_def data_of_def getAnvilSystem_def getHearthSystem_def run_def
        own_property_def)
  then obtain r where r: "snd (fleet_handler anvil_up) = Inr r" by blast
  have i: "ssh_command \<in> set (fst (fleet_handler anvil_up))"
    using remote_inspection_gated [of anvil_up] r u by blast
  from d q p r u i show ?thesis by simp
qed

text \<open>
  Claim C5 says that every request is answered 200 with the whole snapshot. When Anvil
  answers the probe with \<open>{"models": [null]}\<close> the callback of \<open>map\<close> reads
  \<open>m.name\<close> of \<open>null\<close>: the handler throws a TypeError before it runs any command,
  and there is no snapshot.
\<close>

theorem fleet_handler_throws:
  "fleet_handler anvil_odd = ([], Inl TypeError)"
  by (simp add: fleet_handler_def anvil_odd_def all_down_def answered_def timed_out_def
      parse_models_def data_of_def own_property_def anvil_model_def)

text \<open>
  What holds of the snapshot whenever the handler returns: the status is 200, the body
  has every key of the literal at every level, \<open>reachable\<close> is the probe's \<open>ok\<close>, and
  a source that failed leaves \<open>system\<close> null and its list of models empty. When the two
  Ollama probes failed the handler does return.
\<close>

lemma hearth_machine_shape: "has_shape (hearth_machine env lm hsys l0 l2 l3) hearth_shape"
  by (simp add: hearth_machine_def hearth_shape_def port_status_def up_down_def)

lemma anvil_machine_shape: "has_shape (anvil_machine env am asys) anvil_shape"
  by (simp add: anvil_machine_def anvil_shape_def up_down_def)

lemma nas_machine_shape: "has_shape nas_machine nas_shape"
  by (simp add: nas_machine_def nas_shape_def)

lemma mobile_machines_shape: "has_shape mobile_machines mobile_shape"
  by (simp add: mobile_machines_def mobile_shape_def)

lemma routing_object_shape: "has_shape (routing_object env lms) routing_shape"
  by (simp add: routing_object_def routing_shape_def up_down_def)

lemma fleet_object_shape:
  "has_shape (fleet_object env am lm asys hsys lms ds l0 l2 l3) fleet_shape"
  by (simp add: fleet_object_def fleet_shape_def hearth_machine_shape anvil_machine_shape
      nas_machine_shape mobile_machines_shape routing_object_shape)

lemma at_path_anvil:
  "at_path (fleet_object env am lm asys hsys lms ds l0 l2 l3) (''machines'' # ''anvil'' # p)
     = at_path (anvil_machine env am asys) p"
  by (simp add: fleet_object_def)

lemma at_path_hearth:
  "at_path (fleet_object env am lm asys hsys lms ds l0 l2 l3) (''machines'' # ''hearth'' # p)
     = at_path (hearth_machine env lm hsys l0 l2 l3) p"
  by (simp add: fleet_object_def)

lemma at_path_routing:
  "at_path (fleet_object env am lm asys hsys lms ds l0 l2 l3) (''routing'' # p)
     = at_path (routing_object env lms) p"
  by (simp add: fleet_object_def)

lemma anvil_machine_markers:
  "at_path (anvil_machine env am asys) [''connectivity'', ''lan'', ''reachable'']
     = Some (Bool (ok (anvilOllama env)))"
  "at_path (anvil_machine env am asys) [''connectivity'', ''tailscale'', ''reachable'']
     = Some (Bool (ok (anvilOllamaTs env)))"
  "at_path (anvil_machine env am asys) [''system''] = Some asys"
  "at_path (anvil_machine env am asys) [''ollama'', ''models''] = Some (Arr am)"
  by (simp_all add: anvil_machine_def)

lemma hearth_machine_models:
  "at_path (hearth_machine env lm hsys l0 l2 l3) [''models''] = Some (Arr lm)"
  by (simp add: hearth_machine_def)

lemma routing_object_models:
  "at_path (routing_object env lms) [''litellm'', ''models''] = Some (Arr lms)"
  by (simp add: routing_object_def)

lemma fleet_handler_Inr:
  assumes "snd (fleet_handler env) = Inr r"
  shows "\<exists>am lm asys hsys ds l0 l2 l3.
           r = \<lparr>http_status = 200,
                 http_body = fleet_object env am lm asys hsys
                   (if ok (litellm env) then models_fetched env else []) ds l0 l2 l3\<rparr>
           \<and> (\<not> ok (anvilOllama env) \<longrightarrow> am = [] \<and> asys = Null)
           \<and> (\<not> ok (localOllama env) \<longrightarrow> lm = [])"
proof (cases "parse_models (anvil_model env) (anvilOllama env)")
  case (Inl e)
  with assms show ?thesis by (simp add: fleet_handler_def)
next
  case am: (Inr am)
  show ?thesis
  proof (cases "parse_models (local_model env) (localOllama env)")
    case (Inl e)
    with assms am show ?thesis by (simp add: fleet_handler_def)
  next
    case lm: (Inr lm)
    have a: "\<not> ok (anvilOllama env) \<longrightarrow> am = []"
      using am by (auto simp: parse_models_def)
    have l: "\<not> ok (localOllama env) \<longrightarrow> lm = []"
      using lm by (auto simp: parse_models_def)
    obtain log1 asys where
      s1: "(if ok (anvilOllama env) then getAnvilSystem env [] else ([], Null)) = (log1, asys)"
      by fastforce
    obtain log2 hsys where s2: "getHearthSystem env log1 = (log2, hsys)" by fastforce
    obtain log3 ts where
      s3: "run env log2 ''tailscale status --json 2>/dev/null'' 5000 = (log3, ts)" by fastforce
    obtain log4 l0 where s4: "run env log3 ''/usr/sbin/lsof -ti:3000'' 5000 = (log4, l0)"
      by fastforce
    obtain log5 l2 where s5: "run env log4 ''/usr/sbin/lsof -ti:3002'' 5000 = (log5, l2)"
      by fastforce
    obtain log6 l3 where s6: "run env log5 ''/usr/sbin/lsof -ti:3003'' 5000 = (log6, l3)"
      by fastforce
    from assms have r: "r = \<lparr>http_status = 200,
                 http_body = fleet_object env am lm asys hsys
                   (if ok (litellm env) then models_fetched env else [])
                   (tailscale_devices env ts) l0 l2 l3\<rparr>"
      by (simp add: fleet_handler_def am lm s1 s2 s3 s4 s5 s6)
    have n: "\<not> ok (anvilOllama env) \<longrightarrow> asys = Null" using s1 by auto
    from r a l n show ?thesis by blast
  qed
qed

lemma fleet_snapshot_complete:
  assumes "snd (fleet_handler env) = Inr r"
  shows "http_status r = 200
    \<and> has_shape (http_body r) fleet_shape
    \<and> at_path (http_body r) [''machines'', ''anvil'', ''connectivity'', ''lan'', ''reachable'']
        = Some (Bool (ok (anvilOllama env)))
    \<and> at_path (http_body r) [''machines'', ''anvil'', ''connectivity'', ''tailscale'', ''reachable'']
        = Some (Bool (ok (anvilOllamaTs env)))
    \<and> (\<not> ok (anvilOllama env) \<longrightarrow>
         at_path (http_body r) [''machines'', ''anvil'', ''system''] = Some Null
         \<and> at_path (http_body r) [''machines'', ''anvil'', ''ollama'', ''models''] = Some (Arr []))
    \<and> (\<not> ok (localOllama env) \<longrightarrow>
         at_path (http_body r) [''machines'', ''hearth'', ''models''] = Some (Arr []))
    \<and> (\<not> ok (litellm env) \<longrightarrow>
         at_path (http_body r) [''routing'', ''litellm'', ''models''] = Some (Arr []))"
proof -
  from fleet_handler_Inr[OF assms] obtain am lm asys hsys ds l0 l2 l3 where
    r: "r = \<lparr>http_status = 200,
              http_body = fleet_object env am lm asys hsys
                (if ok (litellm env) then models_fetched env else []) ds l0 l2 l3\<rparr>"
    and am: "\<not> ok (anvilOllama env) \<longrightarrow> am = [] \<and> asys = Null"
    and lm: "\<not> ok (localOllama env) \<longrightarrow> lm = []"
    by blast
  show ?thesis
    unfolding r using am lm
    by (simp add: fleet_object_shape at_path_anvil at_path_hearth at_path_routing
        anvil_machine_markers hearth_machine_models routing_object_models)
qed

lemma fleet_handler_failed_sources_return:
  "\<not> ok (anvilOllama env) \<Longrightarrow> \<not> ok (localOllama env) \<Longrightarrow> \<exists>r. snd (fleet_handler env) = Inr r"
  by (simp add: fleet_handler_def parse_models_def split: prod.splits)

section \<open>The router on targets that decode\<close>

text \<open>
  When every segment of the pathname is accepted by \<open>decodeURIComponent\<close>, \<open>match\<close>
  returns a route exactly when one satisfies the structural condition, the earliest
  registered such route wins, and a placeholder \<open>:name\<close> (other than \<open>__proto__\<close>, and
  the last segment of that text in the pattern) leaves the decoded segment in
  \<open>params[name]\<close>.
\<close>

lemma matchParts_decodable:
  assumes "\<forall>z\<in>set zs. \<exists>v. decodeURIComponent (snd z) = Inr v"
  shows "(list_all (\<lambda>(pat, seg). startsWith pat '':'' \<or> pat = seg) zs \<longrightarrow>
            (\<exists>ps'. matchParts ps zs = Inr (Some ps')))
       \<and> (\<not> list_all (\<lambda>(pat, seg). startsWith pat '':'' \<or> pat = seg) zs \<longrightarrow>
            matchParts ps zs = Inr None)"
  using assms
proof (induction zs arbitrary: ps)
  case Nil
  then show ?case by simp
next
  case (Cons z zs)
  obtain pat seg where z: "z = (pat, seg)" by (cases z)
  from Cons.prems z obtain v where v: "decodeURIComponent seg = Inr v" by auto
  from Cons.prems have rest: "\<forall>z\<in>set zs. \<exists>v. decodeURIComponent (snd z) = Inr v" by simp
  show ?case
  proof (cases "startsWith pat '':''")
    case True
    with Cons.IH[OF rest, of "obj_set ps (drop 1 pat) v"] z v show ?thesis by simp
  next
    case False
    with Cons.IH[OF rest, of ps] z show ?thesis by auto
  qed
qed

lemma matchPattern_decodable:
  assumes "\<forall>seg\<in>set (split CHR ''/'' pathname). \<exists>v. decodeURIComponent seg = Inr v"
  shows "(structural r (route_method r) pathname \<longrightarrow>
            (\<exists>ps. matchPattern (pattern r) pathname = Inr (Some ps)))
       \<and> (\<not> structural r (route_method r) pathname \<longrightarrow>
            matchPattern (pattern r) pathname = Inr None)"
proof -
  let ?zs = "zip (split CHR ''/'' (pattern r)) (split CHR ''/'' pathname)"
  have "\<forall>z\<in>set ?zs. \<exists>v. decodeURIComponent (snd z) = Inr v"
    using assms by (auto dest: set_zip_rightD)
  from matchParts_decodable[OF this, of Map.empty] show ?thesis
    by (auto simp: structural_def matchPattern_def Let_def)
qed

lemma structural_method: "structural r m pathname \<longleftrightarrow> route_method r = m \<and> structural r (route_method r) pathname"
  by (auto simp: structural_def)

lemma matchRoutes_decodable:
  assumes "\<forall>seg\<in>set (split CHR ''/'' pathname). \<exists>v. decodeURIComponent seg = Inr v"
  shows "case find (\<lambda>r. structural r m pathname) routes of
           None \<Rightarrow> matchRoutes routes m pathname = Inr None
         | Some r \<Rightarrow>
             (\<exists>ps. matchPattern (pattern r) pathname = Inr (Some ps)
                \<and> matchRoutes routes m pathname = Inr (Some (handler r, ps)))"
proof (induction routes)
  case Nil
  then show ?case by simp
next
  case (Cons r routes)
  show ?case
  proof (cases "route_method r = m")
    case False
    then have "\<not> structural r m pathname" by (simp add: structural_def)
    with False Cons show ?thesis by (simp split: option.splits)
  next
    case True
    show ?thesis
    proof (cases "structural r m pathname")
      case s: True
      with matchPattern_decodable[OF assms, of r] True
      obtain ps where "matchPattern (pattern r) pathname = Inr (Some ps)" by auto
      with s True show ?thesis by simp
    next
      case s: False
      with matchPattern_decodable[OF assms, of r] True
      have "matchPattern (pattern r) pathname = Inr None" by auto
      with s True Cons show ?thesis by (simp split: option.splits)
    qed
  qed
qed

lemma matchParts_other:
  "matchParts ps zs = Inr (Some ps') \<Longrightarrow>
   \<forall>z\<in>set zs. startsWith (fst z) '':'' \<longrightarrow> drop 1 (fst z) \<noteq> k \<Longrightarrow> ps' k = ps k"
proof (induction zs arbitrary: ps)
  case Nil
  then show ?case by simp
next
  case (Cons z zs)
  obtain pat seg where z: "z = (pat, seg)" by (cases z)
  show ?case
  proof (cases "startsWith pat '':''")
    case True
    with Cons.prems z obtain v where v: "decodeURIComponent seg = Inr v"
      and m: "matchParts (obj_set ps (drop 1 pat) v) zs = Inr (Some ps')"
      by (auto split: sum.splits)
    from Cons.prems z True have "drop 1 pat \<noteq> k" by auto
    moreover from Cons.IH[OF m] Cons.prems have "ps' k = obj_set ps (drop 1 pat) v k" by simp
    ultimately show ?thesis by (simp add: obj_set_def)
  next
    case False
    with Cons.prems z have m: "matchParts ps zs = Inr (Some ps')"
      by (auto split: if_splits)
    from Cons.IH[OF m] Cons.prems show ?thesis by simp
  qed
qed

lemma matchParts_params:
  "matchParts ps zs = Inr (Some ps') \<Longrightarrow> i < length zs \<Longrightarrow> zs ! i = (pat, seg) \<Longrightarrow>
   startsWith pat '':'' \<Longrightarrow> drop 1 pat \<noteq> ''__proto__'' \<Longrightarrow>
   \<forall>j. i < j \<and> j < length zs \<and> startsWith (fst (zs ! j)) '':'' \<longrightarrow> fst (zs ! j) \<noteq> pat \<Longrightarrow>
   \<exists>v. decodeURIComponent seg = Inr v \<and> ps' (drop 1 pat) = Some v"
proof (induction zs arbitrary: ps i)
  case Nil
  then show ?case by simp
next
  case (Cons z zs)
  obtain p s where z: "z = (p, s)" by (cases z)
  show ?case
  proof (cases i)
    case 0
    with Cons.prems z have ps: "p = pat" "s = seg" by simp_all
    with Cons.prems z obtain v where v: "decodeURIComponent seg = Inr v"
      and m: "matchParts (obj_set ps (drop 1 pat) v) zs = Inr (Some ps')"
      by (auto split: sum.splits)
    have later: "\<forall>z\<in>set zs. startsWith (fst z) '':'' \<longrightarrow> drop 1 (fst z) \<noteq> drop 1 pat"
    proof (intro ballI impI)
      fix y assume y: "y \<in> set zs" and c: "startsWith (fst y) '':''"
      from y obtain j where j: "j < length zs" "zs ! j = y" by (auto simp: in_set_conv_nth)
      with Cons.prems(6) 0 c have ne: "fst y \<noteq> pat"
        by (auto dest!: spec[of _ "Suc j"])
      from c obtain q where q: "fst y = '':'' @ q" by (auto simp: startsWith_iff)
      from Cons.prems(4) obtain q' where q': "pat = '':'' @ q'" by (auto simp: startsWith_iff)
      from ne q q' show "drop 1 (fst y) \<noteq> drop 1 pat" by auto
    qed
    from matchParts_other[OF m later] Cons.prems(5) v show ?thesis
      by (simp add: obj_set_def)
  next
    case (Suc i')
    have m: "\<exists>ps0. matchParts ps0 zs = Inr (Some ps')"
      using Cons.prems(1) z by (auto split: if_splits sum.splits)
    then obtain ps0 where m0: "matchParts ps0 zs = Inr (Some ps')" by blast
    have l: "\<forall>j. i' < j \<and> j < length zs \<and> startsWith (fst (zs ! j)) '':'' \<longrightarrow> fst (zs ! j) \<noteq> pat"
    proof (intro allI impI)
      fix j assume "i' < j \<and> j < length zs \<and> startsWith (fst (zs ! j)) '':''"
      with Cons.prems(6) Suc show "fst (zs ! j) \<noteq> pat"
        by (auto dest!: spec[of _ "Suc j"])
    qed
    from Cons.IH[of ps0 i', OF m0 _ _ Cons.prems(4,5) l] Cons.prems(2,3) Suc show ?thesis by simp
  qed
qed

lemma matchPattern_params:
  assumes m: "matchPattern pat pathname = Inr (Some ps)"
    and i: "i < length (split CHR ''/'' pat)"
    and p: "startsWith (split CHR ''/'' pat ! i) '':''"
    and n: "drop 1 (split CHR ''/'' pat ! i) \<noteq> ''__proto__''"
    and l: "\<forall>j. i < j \<and> j < length (split CHR ''/'' pat) \<longrightarrow>
              split CHR ''/'' pat ! j \<noteq> split CHR ''/'' pat ! i"
  shows "decodeURIComponent (split CHR ''/'' pathname ! i)
           = Inr (the (ps (drop 1 (split CHR ''/'' pat ! i))))
       \<and> ps (drop 1 (split CHR ''/'' pat ! i)) \<noteq> None"
proof -
  let ?pp = "split CHR ''/'' pat" and ?xs = "split CHR ''/'' pathname"
  from m have len: "length ?pp = length ?xs"
    and mp: "matchParts Map.empty (zip ?pp ?xs) = Inr (Some ps)"
    by (auto simp: matchPattern_def Let_def split: if_splits)
  from i len have iz: "i < length (zip ?pp ?xs)" by simp
  from i len have zi: "zip ?pp ?xs ! i = (?pp ! i, ?xs ! i)" by simp
  have later: "\<forall>j. i < j \<and> j < length (zip ?pp ?xs) \<and> startsWith (fst (zip ?pp ?xs ! j)) '':''
                 \<longrightarrow> fst (zip ?pp ?xs ! j) \<noteq> ?pp ! i"
    using l len by auto
  from matchParts_params[OF mp iz zi p n later]
  show ?thesis by auto
qed

lemma router_match_decodable:
  assumes u: "pathname_of url = Inr pathname"
    and d: "\<forall>seg\<in>set (split CHR ''/'' pathname). \<exists>v. decodeURIComponent seg = Inr v"
  shows "((\<exists>found. Router_match pathname_of routes m url = Inr (Some found))
            \<longleftrightarrow> (\<exists>r\<in>set routes. structural r m pathname))
       \<and> (\<forall>r. find (\<lambda>r. structural r m pathname) routes = Some r \<longrightarrow>
             (\<exists>ps. Router_match pathname_of routes m url = Inr (Some (handler r, ps))
                \<and> matchPattern (pattern r) pathname = Inr (Some ps)))
       \<and> ((\<forall>r\<in>set routes. \<not> structural r m pathname) \<longrightarrow>
             Router_match pathname_of routes m url = Inr None)"
proof -
  have R: "Router_match pathname_of routes m url = matchRoutes routes m pathname"
    using u by (simp add: Router_match_def)
  note M = matchRoutes_decodable[OF d, where m = m and routes = routes]
  show ?thesis
  proof (cases "find (\<lambda>r. structural r m pathname) routes")
    case None
    then have no: "\<forall>r\<in>set routes. \<not> structural r m pathname"
      by (simp add: find_None_iff)
    from M None have "matchRoutes routes m pathname = Inr None" by simp
    with no None show ?thesis by (simp add: R)
  next
    case (Some r)
    then have ex: "\<exists>r\<in>set routes. structural r m pathname"
      by (auto simp: find_Some_iff)
    from M Some obtain ps where "matchPattern (pattern r) pathname = Inr (Some ps)"
      "matchRoutes routes m pathname = Inr (Some (handler r, ps))" by auto
    with ex Some show ?thesis by (auto simp: R)
  qed
qed

section \<open>The limit of the asset list\<close>

text \<open>
  The limit the handler passes on and reports is \<open>Math.min(parseInt(limit || '50'), 200)\<close>:
  never above 200, and 50 when the parameter is missing or empty. A limit from 0 to 200
  gives at most 200 rows.
\<close>

lemma parseInt_50: "parseInt ''50'' = Some 50"
  by (simp add: parseInt_def isWhiteSpace_def isDigit_def digitValue_def hexDigit_def)

lemma atlas_limit:
  assumes r: "atlas_assets searchParams_of (Some db) db_all db_count req_url =
            Inr \<lparr>http_status = st, http_body = Assets rows count limit offset\<rparr>"
    and sp: "searchParams_of req_url = Inr get"
  shows "limit = Math_min (parseInt (or_else (get ''limit'') ''50'')) 200
       \<and> (\<forall>n. limit = Some n \<longrightarrow> n \<le> 200)
       \<and> (get ''limit'' = None \<or> get ''limit'' = Some [] \<longrightarrow> limit = Some 50)"
proof -
  from r sp have l: "limit = Math_min (parseInt (or_else (get ''limit'') ''50'')) 200"
    by (auto simp: atlas_assets_def Let_def split: sum.splits)
  have b: "\<forall>n. limit = Some n \<longrightarrow> n \<le> 200"
    unfolding l by (auto simp: Math_min_def split: option.splits)
  have d: "get ''limit'' = None \<or> get ''limit'' = Some [] \<longrightarrow> limit = Some 50"
    unfolding l by (auto simp: or_else_def parseInt_50 Math_min_def)
  from l b d show ?thesis by blast
qed

lemma sqlite_limit_bound:
  "sqlite_limit (Some lim) off rows = Inr out \<Longrightarrow> 0 \<le> lim \<Longrightarrow> lim \<le> 200 \<Longrightarrow> length out \<le> 200"
  by (auto simp: sqlite_limit_def split: option.splits)

end
